theory Spec2Isabelle
  imports Main "HOL-Library.Word"
begin

unbundle bit_operations_syntax

section \<open>Outcomes of a call\<close>

text \<open>
  The C++ functions of the codec are declared \<^verbatim>\<open>noexcept\<close> and report nothing to their
  caller.  What can go wrong inside them is made a value here: an \<^verbatim>\<open>assert\<close> that fails
  (when the translation unit is compiled without \<^verbatim>\<open>NDEBUG\<close>), an operation whose
  behaviour the language leaves undefined (a shift by the width of the operand or more,
  \<^verbatim>\<open>std::abs\<close> of the most negative value, a conversion of an out-of-range double), a
  thrown \<^verbatim>\<open>std::invalid_argument\<close>, and a loop that never ends.

  Every function that contains an \<^verbatim>\<open>assert\<close> takes the flag \<open>asserts\<close>: \<open>True\<close> is a
  build in which \<^verbatim>\<open>assert(e)\<close> evaluates \<open>e\<close> and aborts when it is false, \<open>False\<close> is a
  build with \<^verbatim>\<open>NDEBUG\<close>, in which \<^verbatim>\<open>assert(e)\<close> expands to nothing and \<open>e\<close> is not
  evaluated at all.
\<close>

datatype 'a outcome =
    Ok 'a
  | Assertion_failed
  | Undefined_behaviour
  | Invalid_argument
  | Diverges

text \<open>Sequencing: the first call that does not return normally ends the computation.\<close>

definition obind :: "'a outcome \<Rightarrow> ('a \<Rightarrow> 'b outcome) \<Rightarrow> 'b outcome" where
  "obind m f =
     (case m of
        Ok x \<Rightarrow> f x
      | Assertion_failed \<Rightarrow> Assertion_failed
      | Undefined_behaviour \<Rightarrow> Undefined_behaviour
      | Invalid_argument \<Rightarrow> Invalid_argument
      | Diverges \<Rightarrow> Diverges)"

lemma obind_cong [fundef_cong]:
  "m = m' \<Longrightarrow> (\<And>x. m' = Ok x \<Longrightarrow> f x = f' x) \<Longrightarrow> obind m f = obind m' f'"
  by (cases m') (simp_all add: obind_def)

lemma obind_Ok [simp]: "obind (Ok x) f = f x"
  by (simp add: obind_def)

lemma obind_eq_Ok: "obind m f = Ok y \<longleftrightarrow> (\<exists>x. m = Ok x \<and> f x = Ok y)"
  by (cases m) (simp_all add: obind_def)

definition cxx_assert :: "bool \<Rightarrow> bool \<Rightarrow> unit outcome" where
  "cxx_assert asserts c = (if asserts \<and> \<not> c then Assertion_failed else Ok ())"

type_synonym byte = "8 word"
type_synonym u64 = "64 word"

text \<open>
  An element type \<open>T\<close> of the C++ templates is a word type \<open>'a word\<close> together with the
  flag \<open>sg\<close> (\<^verbatim>\<open>std::is_signed_v<T>\<close>); \<open>LENGTH('a)\<close> is \<^verbatim>\<open>8 * sizeof(T)\<close>.
\<close>

section \<open>Bitqueue\_push\_back\<close>

text \<open>
  The writer of \<^verbatim>\<open>Bitqueue.hpp\<close>.  \<open>w_flushed\<close> holds the 64-bit words already copied
  to the container, so that \<^verbatim>\<open>d_data\<close> is \<open>8 * length w_flushed\<close> bytes past the start of
  the container.  The container is grown by the caller before a block is written
  (\<^verbatim>\<open>resize\<close> and \<^verbatim>\<open>relocate\<close> in \<^verbatim>\<open>f_compress\<close>); that storage management is not
  modelled, the list simply grows.
\<close>

record Bitqueue_push_back =
  w_flushed :: "u64 list"
  w_buffer :: u64
  w_buffered_bits :: nat

definition new_Bitqueue_push_back :: "bool \<Rightarrow> nat \<Rightarrow> Bitqueue_push_back outcome" where
  "new_Bitqueue_push_back asserts container_size =
     obind (cxx_assert asserts (container_size mod 8 = 0))
       (\<lambda>_. Ok \<lparr>w_flushed = [], w_buffer = 0, w_buffered_bits = 0\<rparr>)"

text \<open>
  The body of the loop over a span, for one value.  \<^verbatim>\<open>mask\<close> is \<^verbatim>\<open>(1ul << B) - 1\<close>, which
  is undefined for \<open>B \<ge> 64\<close>.  A signed value is masked, an unsigned one is not.
\<close>

definition push_val :: "bool \<Rightarrow> nat \<Rightarrow> 'a::len word \<Rightarrow> Bitqueue_push_back \<Rightarrow> Bitqueue_push_back outcome" where
  "push_val sg B val q =
     (if 64 \<le> B then Undefined_behaviour
      else
        let v = (if sg then (ucast val :: u64) AND mask B else ucast val);
            buf = w_buffer q OR push_bit (w_buffered_bits q) v;
            bits = w_buffered_bits q + B
        in if 64 \<le> bits then
             Ok \<lparr>w_flushed = w_flushed q @ [buf],
                 w_buffer = drop_bit (B - (bits - 64)) v,
                 w_buffered_bits = bits - 64\<rparr>
           else
             Ok \<lparr>w_flushed = w_flushed q, w_buffer = buf, w_buffered_bits = bits\<rparr>)"

fun push_vals :: "bool \<Rightarrow> nat \<Rightarrow> 'a::len word list \<Rightarrow> Bitqueue_push_back \<Rightarrow> Bitqueue_push_back outcome" where
  "push_vals sg B [] q = Ok q"
| "push_vals sg B (val # vals) q = obind (push_val sg B val q) (push_vals sg B vals)"

text \<open>\<^verbatim>\<open>push_back<B>(span)\<close>: the width is a template argument, there is no assertion.\<close>

definition push_back_fixed :: "bool \<Rightarrow> nat \<Rightarrow> 'a::len word list \<Rightarrow> Bitqueue_push_back \<Rightarrow> Bitqueue_push_back outcome" where
  "push_back_fixed sg B vals q = (if B = 0 then Ok q else push_vals sg B vals q)"

text \<open>\<^verbatim>\<open>push_back(B, span)\<close>: the width is a run-time argument, checked by an assertion.\<close>

definition push_back_dyn :: "bool \<Rightarrow> bool \<Rightarrow> nat \<Rightarrow> 'a::len word list \<Rightarrow> Bitqueue_push_back \<Rightarrow> Bitqueue_push_back outcome" where
  "push_back_dyn asserts sg B vals q =
     obind (cxx_assert asserts (B \<le> LENGTH('a)))
       (\<lambda>_. if B = 0 then Ok q else push_vals sg B vals q)"

text \<open>
  The literals and \<^verbatim>\<open>std::size_t\<close> expressions pushed as headers all fit their width, so
  that masking them or not gives the same bits; they are pushed as unsigned 64-bit values.
\<close>

definition push_header :: "nat \<Rightarrow> u64 \<Rightarrow> Bitqueue_push_back \<Rightarrow> Bitqueue_push_back outcome" where
  "push_header B val q = push_back_fixed False B [val] q"

text \<open>\<^verbatim>\<open>operator-\<close>: the distance in bytes from the start of the container.\<close>

definition push_distance :: "Bitqueue_push_back \<Rightarrow> nat" where
  "push_distance q = 8 * length (w_flushed q) + (w_buffered_bits q + 7) div 8"

text \<open>\<^verbatim>\<open>std::memcpy\<close> of a 64-bit word on a little-endian host.\<close>

definition bytes_of_u64 :: "u64 \<Rightarrow> byte list" where
  "bytes_of_u64 w = map (\<lambda>i. ucast (drop_bit (8 * i) w)) [0..<8]"

text \<open>
  The end of \<^verbatim>\<open>f_compress\<close>: \<^verbatim>\<open>terse_frame.resize(bitqueue - terse_frame.data())\<close>, and
  the destructor of the writer, which copies the buffered word behind the flushed ones.
\<close>

definition finish_frame :: "Bitqueue_push_back \<Rightarrow> byte list" where
  "finish_frame q =
     take (push_distance q) (concat (map bytes_of_u64 (w_flushed q @ [w_buffer q])))"

section \<open>f\_most\_significant\_bit\<close>

text \<open>The loop \<^verbatim>\<open>for ( ; setbits; setbits>>=1, ++r);\<close>.\<close>

lemma drop_bit_1_less: "(s :: u64) \<noteq> 0 \<Longrightarrow> unat (drop_bit (Suc 0) s) < unat s"
proof -
  assume "s \<noteq> 0"
  then have "0 < unat s"
    by (simp add: unat_gt_0)
  moreover have "unat (drop_bit (Suc 0) s) = unat s div 2"
    by (simp add: drop_bit_eq_div unat_div)
  ultimately show ?thesis
    by simp
qed

function count_bits :: "u64 \<Rightarrow> nat \<Rightarrow> nat" where
  "count_bits s r = (if s = 0 then r else count_bits (drop_bit 1 s) (r + 1))"
  by pat_completeness auto
termination
  by (relation "measure (\<lambda>(s, r). unat s)") (auto simp: drop_bit_1_less)

declare count_bits.simps [simp del]

text \<open>
  What one value contributes to \<^verbatim>\<open>setbits\<close>.  For a signed \<open>T\<close> the expression is
  \<^verbatim>\<open>(val == -1) ? 1 : std::abs(val) << 1\<close>, computed in \<^verbatim>\<open>int\<close> for the types narrower
  than \<^verbatim>\<open>int\<close> and in \<open>T\<close> otherwise (width \<open>W\<close>), then converted to \<^verbatim>\<open>std::size_t\<close>.
  \<^verbatim>\<open>std::abs\<close> of the most negative value of that type is undefined; the left shift
  wraps (C++20).
\<close>

definition setbits_of :: "bool \<Rightarrow> 'a::len word \<Rightarrow> u64 outcome" where
  "setbits_of sg val =
     (if \<not> sg then Ok (ucast val)
      else
        let W = max 32 LENGTH('a); x = sint val
        in if x = - 1 then Ok 1
           else if x = - (2 ^ (W - 1)) then Undefined_behaviour
           else Ok (word_of_int (signed_take_bit (W - 1) (2 * \<bar>x\<bar>))))"

fun setbits_fold :: "bool \<Rightarrow> 'a::len word list \<Rightarrow> u64 \<Rightarrow> u64 outcome" where
  "setbits_fold sg [] s = Ok s"
| "setbits_fold sg (val # vals) s =
     obind (setbits_of sg val) (\<lambda>b. setbits_fold sg vals (s OR b))"

text \<open>\<^verbatim>\<open>f_most_significant_bit(std::span<T0,N>)\<close>.\<close>

definition f_most_significant_bit :: "bool \<Rightarrow> 'a::len word list \<Rightarrow> nat outcome" where
  "f_most_significant_bit sg values =
     obind (setbits_fold sg values 0)
       (\<lambda>setbits. Ok (min (count_bits setbits 0) LENGTH('a)))"

text \<open>\<^verbatim>\<open>f_most_significant_bit(T0 val)\<close> for one value.\<close>

definition f_most_significant_bit1 :: "bool \<Rightarrow> 'a::len word \<Rightarrow> nat outcome" where
  "f_most_significant_bit1 sg val =
     obind (setbits_of sg val)
       (\<lambda>setbits. Ok (min (count_bits setbits 0) LENGTH('a)))"

section \<open>Compression, modes Signed and Unsigned\<close>

datatype Terse_mode = Unsigned | Small_unsigned | Signed | Default

text \<open>The macro \<^verbatim>\<open>PUSH_BITS(prevbits, bits)\<close>; the caller stores \<open>bits\<close> in \<open>prevbits\<close>.\<close>

definition PUSH_BITS :: "nat \<Rightarrow> nat \<Rightarrow> Bitqueue_push_back \<Rightarrow> Bitqueue_push_back outcome" where
  "PUSH_BITS prevbits bits q =
     (if prevbits = bits then push_header 1 1 q
      else if bits < 7 then push_header 4 (push_bit 1 (word_of_nat bits)) q
      else if bits < 10 then push_header 6 (0xE + push_bit 4 (word_of_nat bits - 7)) q
      else push_header 12 (0x3E + push_bit 6 (word_of_nat bits - 10)) q)"

text \<open>
  The size with which \<^verbatim>\<open>terse_frame\<close> is constructed,
  \<^verbatim>\<open>d_size * sizeof(T) * 0.01 + block * sizeof(T) + 2\<close>, a double truncated to
  \<^verbatim>\<open>std::size_t\<close>.  For sizes below \<open>2 ^ 52\<close> the truncated double is the integer below;
  the size matters only to the assertion in the constructor of the writer.
\<close>

definition initial_frame_size :: "nat \<Rightarrow> nat \<Rightarrow> nat \<Rightarrow> nat" where
  "initial_frame_size d_size block sizeof_T = d_size * sizeof_T div 100 + block * sizeof_T + 2"

text \<open>
  The loop over the blocks of \<^verbatim>\<open>f_compress<MODE>\<close> for \<open>MODE\<close> Signed or Unsigned.
  \<open>buffer\<close> is the \<^verbatim>\<open>Unique_array\<close> of \<open>d_block\<close> elements allocated (zeroed) before the
  loop: a masked block overwrites its first \<open>block_len\<close> elements and then pushes all of
  it.  With \<open>d_block = 0\<close> the loop variable never advances.
\<close>

function f_compress_blocks ::
  "bool \<Rightarrow> bool \<Rightarrow> Terse_mode \<Rightarrow> nat \<Rightarrow> 'a::len word list \<Rightarrow> 'a word list \<Rightarrow> nat \<Rightarrow> nat \<Rightarrow> nat
     \<Rightarrow> Bitqueue_push_back \<Rightarrow> Bitqueue_push_back outcome" where
  "f_compress_blocks asserts sg MODE d_block data buffer from prevbits prevmasked_bits q =
     (if from < length data then
        if d_block = 0 then Diverges
        else
          let data_block = take d_block (drop from data) in
          obind (f_most_significant_bit sg data_block) (\<lambda>significant_bits.
          obind (PUSH_BITS prevbits significant_bits q) (\<lambda>q1.
          if MODE = Signed \<or> significant_bits \<noteq> LENGTH('a) then
            obind (push_back_dyn asserts sg significant_bits data_block q1) (\<lambda>q2.
              f_compress_blocks asserts sg MODE d_block data buffer (from + d_block)
                significant_bits prevmasked_bits q2)
          else
            let buffer' = map (\<lambda>val. val + 1) data_block @ drop (length data_block) buffer in
            obind (f_most_significant_bit sg buffer') (\<lambda>masked_bits.
            obind (PUSH_BITS prevmasked_bits masked_bits q1) (\<lambda>q2.
            obind (push_back_dyn asserts sg masked_bits buffer' q2) (\<lambda>q3.
              f_compress_blocks asserts sg MODE d_block data buffer' (from + d_block)
                significant_bits masked_bits q3)))))
      else Ok q)"
  by pat_completeness auto
termination
  by (relation "measure (\<lambda>(asserts, sg, MODE, d_block, data, buffer, from, rest). length data - from)")
    auto

declare f_compress_blocks.simps [simp del]

definition f_compress_SU :: "bool \<Rightarrow> bool \<Rightarrow> Terse_mode \<Rightarrow> nat \<Rightarrow> 'a::len word list \<Rightarrow> byte list outcome" where
  "f_compress_SU asserts sg MODE d_block data =
     obind (new_Bitqueue_push_back asserts
              (initial_frame_size (length data) d_block (LENGTH('a) div 8))) (\<lambda>q0.
     obind (if MODE \<noteq> Signed then push_header 18 0x3FFF8 q0 else Ok q0) (\<lambda>q1.
     obind (f_compress_blocks asserts sg MODE d_block data (replicate d_block 0) 0 0 0 q1) (\<lambda>q2.
     Ok (finish_frame q2))))"

section \<open>Compression, mode Small\_unsigned\<close>

text \<open>
  \<^verbatim>\<open>x + k\<close> for an unsigned \<open>T\<close> and a small \<^verbatim>\<open>int\<close> \<open>k\<close>, as C++ computes it: in
  \<^verbatim>\<open>int\<close> (without wrap-around) when \<open>T\<close> is narrower than \<^verbatim>\<open>int\<close>, in \<open>T\<close> otherwise.
\<close>

definition promoted_plus :: "'a::len word \<Rightarrow> int \<Rightarrow> int" where
  "promoted_plus x k = (if LENGTH('a) < 32 then uint x + k else uint (x + word_of_int k))"

text \<open>\<^verbatim>\<open>std::ranges::max\<close> of a span of an unsigned type; the spans it is given are not empty.\<close>

definition ranges_max :: "'a::len word list \<Rightarrow> 'a word outcome" where
  "ranges_max xs = (case xs of [] \<Rightarrow> Undefined_behaviour | x # ys \<Rightarrow> Ok (fold max ys x))"

text \<open>The radix packing of a weak block: the loop over \<^verbatim>\<open>compact\<close> and \<^verbatim>\<open>mult\<close>.\<close>

fun compact_loop :: "'a::len word \<Rightarrow> 'a word list \<Rightarrow> u64 \<Rightarrow> u64 \<Rightarrow> u64 \<times> u64" where
  "compact_loop maxval [] mult compact = (mult, compact)"
| "compact_loop maxval (d # ds) mult compact =
     compact_loop maxval ds (mult * word_of_int (promoted_plus maxval 1)) (compact + mult * ucast d)"

definition f_compress_weak_block ::
  "bool \<Rightarrow> 'a::len word list \<Rightarrow> Bitqueue_push_back \<Rightarrow> 'a word \<Rightarrow> 'a word \<Rightarrow> Bitqueue_push_back outcome" where
  "f_compress_weak_block asserts data_block q maxval previous_maxval =
     obind
       (if previous_maxval = 0 \<and> maxval = 0 then push_header 1 1 q
        else if previous_maxval = maxval then push_header 2 3 q
        else if promoted_plus previous_maxval 1 = uint maxval then push_header 2 2 q
        else if maxval \<noteq> 6 \<and> promoted_plus previous_maxval (- 1) = uint maxval then push_header 2 1 q
        else if previous_maxval = 6 \<and> maxval = 4 then push_header 2 2 q
        else push_header 5 (push_bit 2 (ucast maxval)) q)
       (\<lambda>q1.
          if maxval = 0 then Ok q1
          else if maxval = 1 then push_back_fixed False 1 data_block q1
          else if maxval = 3 then push_back_fixed False 2 data_block q1
          else
            let (mult, compact) = compact_loop maxval data_block 1 0 in
            obind (f_most_significant_bit1 False (mult - 1)) (\<lambda>B.
              push_back_dyn asserts False B [compact] q1))"

definition f_compress_strong_block ::
  "bool \<Rightarrow> 'a::len word list \<Rightarrow> Bitqueue_push_back \<Rightarrow> nat \<Rightarrow> nat \<Rightarrow> Bitqueue_push_back outcome" where
  "f_compress_strong_block asserts data_block q significant_bits previous_significant_bits =
     (let sb = word_of_nat significant_bits :: u64; prev = word_of_nat previous_significant_bits :: u64 in
      obind
        (if prev = sb then push_header 2 3 q
         else if prev + 1 = sb then push_header 2 2 q
         else if prev - 1 = sb then push_header 2 1 q
         else if sb < 10 then push_header 8 (0x1C + push_bit 5 (sb - 3)) q
         else if sb < 17 then push_header 11 (0xFC + push_bit 8 (sb - 10)) q
         else push_header 17 (0x7FC + push_bit 11 (sb - 17)) q)
        (\<lambda>q1. push_back_dyn asserts False significant_bits data_block q1))"

text \<open>
  One iteration of the loop of \<^verbatim>\<open>f_compress_masked\<close>.  The flag of the result tells
  whether the loop goes on (\<open>False\<close> is the \<^verbatim>\<open>break\<close>); with it come the writer and what
  the iteration leaves in \<^verbatim>\<open>prevmax\<close> and \<^verbatim>\<open>prevbits\<close>.
\<close>

definition f_compress_masked_step ::
  "bool \<Rightarrow> nat \<Rightarrow> 'a::len word list \<Rightarrow> nat \<Rightarrow> Bitqueue_push_back \<Rightarrow> 'a word \<Rightarrow> nat
     \<Rightarrow> (bool \<times> Bitqueue_push_back \<times> 'a word \<times> nat) outcome" where
  "f_compress_masked_step asserts block data from q prevmax prevbits =
     (let to = min (length data) (from + block);
          unmasked = map (\<lambda>val. val + 1) (take (to - from) (drop from data)) in
      obind (ranges_max unmasked) (\<lambda>max.
      obind
        (if max < 7 then
           obind (f_compress_weak_block asserts unmasked q max prevmax) (\<lambda>q1. Ok (q1, max, prevbits))
         else
           obind (f_most_significant_bit1 False max) (\<lambda>sb.
           obind (f_compress_strong_block asserts unmasked q sb prevbits) (\<lambda>q1. Ok (q1, prevmax, sb))))
        (\<lambda>(q1, prevmax1, prevbits1).
           if to \<noteq> length data then
             obind (ranges_max (take (min (length data) (to + block) - to) (drop to data))) (\<lambda>next_max.
               if next_max \<noteq> - 1 then
                 obind (push_header 1 0 q1) (\<lambda>q2. Ok (False, q2, prevmax1, prevbits1))
               else
                 obind (push_header 1 1 q1) (\<lambda>q2. Ok (True, q2, prevmax1, prevbits1)))
           else Ok (True, q1, prevmax1, prevbits1))))"

text \<open>
  The loop of \<^verbatim>\<open>f_compress_masked\<close>.  The result holds what the function leaves in its
  reference parameters: \<^verbatim>\<open>from\<close>, \<^verbatim>\<open>prevmax\<close> and \<^verbatim>\<open>prevbits\<close>, with the writer.
\<close>

function f_compress_masked_loop ::
  "bool \<Rightarrow> nat \<Rightarrow> 'a::len word list \<Rightarrow> nat \<Rightarrow> Bitqueue_push_back \<Rightarrow> 'a word \<Rightarrow> nat
     \<Rightarrow> (nat \<times> Bitqueue_push_back \<times> 'a word \<times> nat) outcome" where
  "f_compress_masked_loop asserts block data from q prevmax prevbits =
     (if from < length data then
        if block = 0 then Diverges
        else
          obind (f_compress_masked_step asserts block data from q prevmax prevbits)
            (\<lambda>(continue, q1, prevmax1, prevbits1).
               if continue then f_compress_masked_loop asserts block data (from + block) q1 prevmax1 prevbits1
               else Ok (from, q1, prevmax1, prevbits1))
      else Ok (from, q, prevmax, prevbits))"
  by pat_completeness auto
termination
  by (relation "measure (\<lambda>(asserts, block, data, from, rest). length data - from)") auto

declare f_compress_masked_loop.simps [simp del]

definition f_compress_masked ::
  "bool \<Rightarrow> nat \<Rightarrow> 'a::len word list \<Rightarrow> nat \<Rightarrow> Bitqueue_push_back
     \<Rightarrow> (nat \<times> Bitqueue_push_back \<times> 'a word \<times> nat) outcome" where
  "f_compress_masked asserts d_block data from q =
     (let block = min d_block 24; P = word_of_nat LENGTH('a) :: u64 in
      obind
        (if LENGTH('a) < 10 then push_header 8 (0x1C + push_bit 5 (P - 3)) q
         else if LENGTH('a) < 17 then push_header 11 (0xFC + push_bit 8 (P - 10)) q
         else push_header 17 (0x7FC + push_bit 11 (P - 17)) q)
        (\<lambda>q1. f_compress_masked_loop asserts block data from q1 (- 1) (LENGTH('a) + 1)))"


lemma f_compress_masked_loop_from:
  "f_compress_masked_loop asserts block data from q prevmax prevbits = Ok (from', r) \<Longrightarrow> from \<le> from'"
proof (induction asserts block data "from" q prevmax prevbits rule: f_compress_masked_loop.induct)
  case (1 asserts block data "from" q prevmax prevbits)
  show ?case
  proof (cases "from < length data \<and> block \<noteq> 0")
    case False
    with "1.prems" show ?thesis
      by (subst (asm) f_compress_masked_loop.simps) (auto split: if_splits)
  next
    case True
    with "1.prems" obtain continue q1 prevmax1 prevbits1 where
      step: "f_compress_masked_step asserts block data from q prevmax prevbits
               = Ok (continue, q1, prevmax1, prevbits1)"
      and rest: "(if continue then f_compress_masked_loop asserts block data (from + block) q1 prevmax1 prevbits1
               else Ok (from, q1, prevmax1, prevbits1)) = Ok (from', r)"
      by (subst (asm) f_compress_masked_loop.simps) (auto simp: obind_eq_Ok)
    show ?thesis
    proof (cases continue)
      case False
      with rest show ?thesis by simp
    next
      case True
      with rest have "from + block \<le> from'"
        using "1.IH" [OF _ _ step refl refl refl] \<open>from < length data \<and> block \<noteq> 0\<close> by simp
      then show ?thesis by simp
    qed
  qed
qed

lemma f_compress_masked_from:
  "f_compress_masked asserts d_block data from q = Ok (from', r) \<Longrightarrow> from \<le> from'"
  by (auto simp: f_compress_masked_def Let_def obind_eq_Ok dest: f_compress_masked_loop_from)

text \<open>The loop over the blocks of \<^verbatim>\<open>f_compress<Terse_mode::Small_unsigned>\<close>.\<close>

function f_compress_small_blocks ::
  "bool \<Rightarrow> nat \<Rightarrow> nat \<Rightarrow> 'a::len word list \<Rightarrow> nat \<Rightarrow> 'a word \<Rightarrow> nat
     \<Rightarrow> Bitqueue_push_back \<Rightarrow> Bitqueue_push_back outcome" where
  "f_compress_small_blocks asserts d_block block data from prevmax prevbits q =
     (if from < length data then
        if block = 0 then Diverges
        else
          let data_block = take block (drop from data) in
          obind (ranges_max data_block) (\<lambda>max.
            if max < 7 then
              obind (f_compress_weak_block asserts data_block q max prevmax) (\<lambda>q1.
                f_compress_small_blocks asserts d_block block data (from + block) max 65 q1)
            else
              obind (f_most_significant_bit1 False max) (\<lambda>significant_bits.
                if significant_bits = LENGTH('a) then
                  obind (f_compress_masked asserts d_block data from q) (\<lambda>(from1, q1, prevmax1, prevbits1).
                    f_compress_small_blocks asserts d_block block data (from1 + block) prevmax1 prevbits1 q1)
                else
                  obind (f_compress_strong_block asserts data_block q significant_bits prevbits) (\<lambda>q1.
                    f_compress_small_blocks asserts d_block block data (from + block)
                      ((- 1) div 2) significant_bits q1)))
      else Ok q)"
  by pat_completeness auto
termination
  by (relation "measure (\<lambda>(asserts, d_block, block, data, from, rest). length data - from)")
    (auto dest: f_compress_masked_from)

declare f_compress_small_blocks.simps [simp del]

definition f_compress_small :: "bool \<Rightarrow> nat \<Rightarrow> 'a::len word list \<Rightarrow> byte list outcome" where
  "f_compress_small asserts d_block data =
     (let block = min d_block 24 in
      obind (new_Bitqueue_push_back asserts
               (initial_frame_size (length data) block (LENGTH('a) div 8))) (\<lambda>q0.
      obind (push_header 18 0x3FFFC q0) (\<lambda>q1.
      obind (f_compress_small_blocks asserts d_block block data 0 0 0 q1) (\<lambda>q2.
      Ok (finish_frame q2)))))"

text \<open>
  \<^verbatim>\<open>f_compress(mode, data_begin)\<close>: signed data is always compressed as Signed; \<open>d_small\<close>
  chooses the mode that Default stands for.
\<close>

definition f_compress :: "bool \<Rightarrow> bool \<Rightarrow> bool \<Rightarrow> Terse_mode \<Rightarrow> nat \<Rightarrow> 'a::len word list \<Rightarrow> byte list outcome" where
  "f_compress asserts sg d_small mode d_block data =
     (case (if sg then Signed else mode) of
        Small_unsigned \<Rightarrow> f_compress_small asserts d_block data
      | Unsigned \<Rightarrow> f_compress_SU asserts sg Unsigned d_block data
      | Signed \<Rightarrow> f_compress_SU asserts sg Signed d_block data
      | Default \<Rightarrow>
          if d_small then f_compress_small asserts d_block data
          else f_compress_SU asserts sg Unsigned d_block data)"


section \<open>Bitqueue\_pop\<close>

text \<open>
  The reader of \<^verbatim>\<open>Bitqueue.hpp\<close>.  \<open>r_data\<close> is the offset of \<^verbatim>\<open>d_data\<close> from the start
  of the container, in bytes; \<open>r_buffered_bits\<close> counts the bits of \<open>r_buffer\<close> that have not
  been consumed yet.  The reader copies eight bytes at a time; bytes that lie past the end
  of the container (and the bytes of \<^verbatim>\<open>d_buffer\<close> that the constructor leaves unset for a
  container shorter than eight bytes) are read as zero, which is the reading most
  favourable to the code.
\<close>

record Bitqueue_pop =
  r_container :: "byte list"
  r_data :: nat
  r_buffer :: u64
  r_buffered_bits :: nat

definition u64_of_bytes :: "byte list \<Rightarrow> u64" where
  "u64_of_bytes bs = foldr (\<lambda>b w. ucast b OR push_bit 8 w) bs 0"

definition load_u64 :: "byte list \<Rightarrow> nat \<Rightarrow> u64" where
  "load_u64 mem off = u64_of_bytes (take 8 (drop off mem))"

definition new_Bitqueue_pop :: "bool \<Rightarrow> byte list \<Rightarrow> Bitqueue_pop outcome" where
  "new_Bitqueue_pop asserts container =
     obind (cxx_assert asserts (length container mod 8 = 0))
       (\<lambda>_. Ok \<lparr>r_container = container, r_data = 0,
                r_buffer = load_u64 container 0, r_buffered_bits = 64\<rparr>)"

text \<open>
  The body of the loop of \<^verbatim>\<open>pop\<close> over a span, for one value of the target type \<open>T\<close>.
  \<^verbatim>\<open>(1ul << B)\<close> is undefined for \<open>B \<ge> 64\<close>, and for a signed \<open>T\<close> so is
  \<^verbatim>\<open>T(1) << (B - 1)\<close> when \<open>B - 1\<close> reaches the width in which it is computed.
\<close>

definition pop_val :: "bool \<Rightarrow> nat \<Rightarrow> Bitqueue_pop \<Rightarrow> ('a::len word \<times> Bitqueue_pop) outcome" where
  "pop_val sg B q =
     (if 64 \<le> B then Undefined_behaviour
      else if sg \<and> max 32 LENGTH('a) \<le> B - 1 then Undefined_behaviour
      else
        let mask_T = ucast (mask B :: u64) :: 'a word;
            is_negative = (if sg then push_bit (B - 1) 1 else 0) :: 'a word;
            p0 = ucast (r_buffer q) :: 'a word;
            (p1, q1) =
              (if B \<le> r_buffered_bits q then
                 (p0, q\<lparr>r_buffer := drop_bit B (r_buffer q),
                        r_buffered_bits := r_buffered_bits q - B\<rparr>)
               else
                 let d = r_data q + 8; w = load_u64 (r_container q) d in
                 (p0 OR ucast (push_bit (r_buffered_bits q) w),
                  q\<lparr>r_data := d, r_buffer := drop_bit (B - r_buffered_bits q) w,
                    r_buffered_bits := 64 + r_buffered_bits q - B\<rparr>))
        in Ok (if B \<noteq> LENGTH('a)
               then (if p1 AND is_negative \<noteq> 0 then p1 OR NOT mask_T else p1 AND mask_T)
               else p1, q1))"

fun pop_vals :: "bool \<Rightarrow> nat \<Rightarrow> nat \<Rightarrow> Bitqueue_pop \<Rightarrow> ('a::len word list \<times> Bitqueue_pop) outcome" where
  "pop_vals sg B 0 q = Ok ([], q)"
| "pop_vals sg B (Suc n) q =
     obind (pop_val sg B q) (\<lambda>(p, q1).
     obind (pop_vals sg B n q1) (\<lambda>(ps, q2). Ok (p # ps, q2)))"

text \<open>\<^verbatim>\<open>pop(B, span)\<close> for a span of \<open>n\<close> values.\<close>

definition pop_span :: "bool \<Rightarrow> bool \<Rightarrow> nat \<Rightarrow> nat \<Rightarrow> Bitqueue_pop \<Rightarrow> ('a::len word list \<times> Bitqueue_pop) outcome" where
  "pop_span asserts sg B n q =
     obind (cxx_assert asserts (B \<le> LENGTH('a)))
       (\<lambda>_. if B = 0 then Ok (replicate n 0, q) else pop_vals sg B n q)"

text \<open>
  The macro \<^verbatim>\<open>POP(bits, begin, num)\<close>.  For the block sizes that have a template
  instance it calls \<^verbatim>\<open>pop<B>\<close> on a span of \<open>d_block\<close> values when \<open>bits \<le> 8\<close> and
  \<open>num = d_block\<close>, and \<^verbatim>\<open>pop(bits, span)\<close> on \<open>num\<close> values otherwise.  The two overloads
  have the same loop body, and the assertion of the first holds for every \<open>B \<le> 8\<close>, so the
  macro is \<open>pop_span\<close> in every case.
\<close>

definition POP :: "bool \<Rightarrow> bool \<Rightarrow> nat \<Rightarrow> nat \<Rightarrow> Bitqueue_pop \<Rightarrow> ('a::len word list \<times> Bitqueue_pop) outcome" where
  "POP asserts sg bits num q = pop_span asserts sg bits num q"

text \<open>\<^verbatim>\<open>pop<B, T>()\<close> for an unsigned \<open>T\<close>: one value of a fixed width.\<close>

definition pop_fixed :: "nat \<Rightarrow> Bitqueue_pop \<Rightarrow> ('a::len word \<times> Bitqueue_pop) outcome" where
  "pop_fixed B q = (if B = 0 then Ok (0, q) else pop_val False B q)"

text \<open>\<^verbatim>\<open>pop<T>(B)\<close> for an unsigned \<open>T\<close>: one value of a run-time width.\<close>

definition pop_dyn :: "bool \<Rightarrow> nat \<Rightarrow> Bitqueue_pop \<Rightarrow> ('a::len word \<times> Bitqueue_pop) outcome" where
  "pop_dyn asserts B q =
     (if B = 0 then Ok (0, q)
      else obind (cxx_assert asserts (B \<le> LENGTH('a))) (\<lambda>_. pop_val False B q))"

text \<open>\<^verbatim>\<open>skip(B)\<close>, as it is written.\<close>

definition pop_skip :: "nat \<Rightarrow> Bitqueue_pop \<Rightarrow> Bitqueue_pop" where
  "pop_skip B q =
     (if B \<le> r_buffered_bits q then q\<lparr>r_buffered_bits := r_buffered_bits q - B\<rparr>
      else q\<lparr>r_data := r_data q + (8 + B div 64), r_buffered_bits := 64 - B mod 64\<rparr>)"

text \<open>\<^verbatim>\<open>operator-\<close> of the reader, for a pointer \<open>p\<close> bytes past the start of the container.\<close>

definition pop_distance :: "Bitqueue_pop \<Rightarrow> nat \<Rightarrow> int" where
  "pop_distance q p = int (r_data q + (r_buffered_bits q + 7) div 8) - int p"

section \<open>Decompression, modes Signed and Unsigned\<close>

text \<open>The macro \<^verbatim>\<open>BITS(bits)\<close>; \<open>bits\<close> is a \<^verbatim>\<open>uint8_t\<close>.\<close>

definition BITS :: "byte \<Rightarrow> Bitqueue_pop \<Rightarrow> (byte \<times> Bitqueue_pop) outcome" where
  "BITS bits q =
     obind (pop_fixed 1 q) (\<lambda>(flag :: byte, q1).
       if flag = 0 then
         obind (pop_fixed 3 q1) (\<lambda>(b3 :: byte, q2).
           if b3 = 7 then
             obind (pop_fixed 2 q2) (\<lambda>(b2 :: byte, q3).
               if b3 + b2 = 10 then
                 obind (pop_fixed 6 q3) (\<lambda>(b6 :: byte, q4). Ok (b3 + b2 + b6, q4))
               else Ok (b3 + b2, q3))
           else Ok (b3, q2))
       else Ok (bits, q1))"

function f_prolix_signed_blocks ::
  "bool \<Rightarrow> bool \<Rightarrow> nat \<Rightarrow> nat \<Rightarrow> nat \<Rightarrow> byte \<Rightarrow> Bitqueue_pop \<Rightarrow> 'a::len word list outcome" where
  "f_prolix_signed_blocks asserts sg d_block d_size from significant_bits q =
     (if from < d_size then
        if d_block = 0 then Diverges
        else
          let to = min d_size (from + d_block) in
          obind (BITS significant_bits q) (\<lambda>(significant_bits1, q1).
          obind (POP asserts sg (unat significant_bits1) (to - from) q1) (\<lambda>(vals, q2).
          obind (f_prolix_signed_blocks asserts sg d_block d_size (from + d_block) significant_bits1 q2)
            (\<lambda>rest. Ok (vals @ rest))))
      else Ok [])"
  by pat_completeness auto
termination
  by (relation "measure (\<lambda>(asserts, sg, d_block, d_size, from, rest). d_size - from)") auto

declare f_prolix_signed_blocks.simps [simp del]

text \<open>
  \<^verbatim>\<open>f_prolix_signed\<close>.  \<open>sg\<close> is the signedness of the element type of the output,
  \<open>d_signed\<close> that of the container.
\<close>

definition f_prolix_signed :: "bool \<Rightarrow> bool \<Rightarrow> bool \<Rightarrow> nat \<Rightarrow> nat \<Rightarrow> byte list \<Rightarrow> 'a::len word list outcome" where
  "f_prolix_signed asserts sg d_signed d_block d_size frame =
     obind (cxx_assert asserts (d_signed \<longrightarrow> sg)) (\<lambda>_.
     obind (new_Bitqueue_pop asserts frame) (\<lambda>q.
     f_prolix_signed_blocks asserts sg d_block d_size 0 0 q))"

text \<open>
  \<^verbatim>\<open>assert((bitqueue.pop<18, std::size_t>() == prefix))\<close>: the 18 bits are popped inside the
  assertion, so they are consumed only in a build that evaluates assertions.
\<close>

definition assert_pop_prefix :: "bool \<Rightarrow> u64 \<Rightarrow> Bitqueue_pop \<Rightarrow> Bitqueue_pop outcome" where
  "assert_pop_prefix asserts prefix q =
     (if asserts then
        obind (pop_fixed 18 q) (\<lambda>(flag :: u64, q1). if flag = prefix then Ok q1 else Assertion_failed)
      else Ok q)"

text \<open>
  The loop \<^verbatim>\<open>for (std::size_t i = from; i != to; ++i) --begin[i];\<close> that follows the
  payload of a masked block.  \<open>T\<close> is the element type of the output.  For an unsigned
  \<open>T\<close> the decrement wraps; for a signed \<open>T\<close> narrower than \<^verbatim>\<open>int\<close> it is computed in
  \<^verbatim>\<open>int\<close> and converted back, which wraps as well (C++20); for a signed \<open>T\<close> of the width
  of \<^verbatim>\<open>int\<close> or more it overflows at the most negative value, which is undefined.
\<close>

definition pre_decrement :: "bool \<Rightarrow> 'a::len word \<Rightarrow> 'a word outcome" where
  "pre_decrement sg val =
     (if sg \<and> 32 \<le> LENGTH('a) \<and> sint val = - (2 ^ (LENGTH('a) - 1)) then Undefined_behaviour
      else Ok (val - 1))"

fun decrement_all :: "bool \<Rightarrow> 'a::len word list \<Rightarrow> 'a word list outcome" where
  "decrement_all sg [] = Ok []"
| "decrement_all sg (val # vals) =
     obind (pre_decrement sg val) (\<lambda>val1.
     obind (decrement_all sg vals) (\<lambda>vals1. Ok (val1 # vals1)))"

function f_prolix_unsigned_blocks ::
  "bool \<Rightarrow> bool \<Rightarrow> nat \<Rightarrow> nat \<Rightarrow> nat \<Rightarrow> nat \<Rightarrow> byte \<Rightarrow> byte \<Rightarrow> Bitqueue_pop \<Rightarrow> 'a::len word list outcome" where
  "f_prolix_unsigned_blocks asserts sg d_prolix_bits d_block d_size from significant_bits masked_bits q =
     (if from < d_size then
        if d_block = 0 then Diverges
        else
          let to = min d_size (from + d_block) in
          obind (BITS significant_bits q) (\<lambda>(significant_bits1, q1).
            if unat significant_bits1 \<noteq> d_prolix_bits then
              obind (POP asserts sg (unat significant_bits1) (to - from) q1) (\<lambda>(vals, q2).
              obind (f_prolix_unsigned_blocks asserts sg d_prolix_bits d_block d_size (from + d_block)
                       significant_bits1 masked_bits q2)
                (\<lambda>rest. Ok (vals @ rest)))
            else
              obind (BITS masked_bits q1) (\<lambda>(masked_bits1, q2).
              obind (POP asserts sg (unat masked_bits1) (to - from) q2) (\<lambda>(vals, q3).
              obind (decrement_all sg vals) (\<lambda>vals1.
              obind (f_prolix_unsigned_blocks asserts sg d_prolix_bits d_block d_size (from + d_block)
                       significant_bits1 masked_bits1 q3)
                (\<lambda>rest. Ok (vals1 @ rest))))))
      else Ok [])"
  by pat_completeness auto
termination
  by (relation "measure (\<lambda>(asserts, sg, d_prolix_bits, d_block, d_size, from, rest). d_size - from)") auto

declare f_prolix_unsigned_blocks.simps [simp del]

definition f_prolix_unsigned ::
  "bool \<Rightarrow> bool \<Rightarrow> bool \<Rightarrow> nat \<Rightarrow> nat \<Rightarrow> nat \<Rightarrow> byte list \<Rightarrow> 'a::len word list outcome" where
  "f_prolix_unsigned asserts sg d_signed d_prolix_bits d_block d_size frame =
     obind (cxx_assert asserts (d_signed \<longrightarrow> sg)) (\<lambda>_.
     obind (new_Bitqueue_pop asserts frame) (\<lambda>q.
     obind (assert_pop_prefix asserts 0x3FFF8 q) (\<lambda>q1.
     f_prolix_unsigned_blocks asserts sg d_prolix_bits d_block d_size 0 0 0 q1)))"


section \<open>Decompression, mode Small\_unsigned\<close>

text \<open>\<^verbatim>\<open>f_get_max\<close>: the header of a block; \<open>max\<close> is a \<open>T\<close>, \<open>bits\<close> a \<^verbatim>\<open>uint8_t\<close>.\<close>

definition f_get_max ::
  "Bitqueue_pop \<Rightarrow> 'a::len word \<Rightarrow> byte \<Rightarrow> ('a word \<times> byte \<times> Bitqueue_pop) outcome" where
  "f_get_max q cur_max bits =
     obind (pop_fixed 1 q) (\<lambda>(flag1 :: byte, q1).
       if flag1 = 1 \<and> cur_max = 0 then Ok (cur_max, bits, q1)
       else
         obind (pop_fixed 1 q1) (\<lambda>(flag2 :: byte, q2).
           let flag = push_bit 1 flag1 + flag2 in
           if flag = 3 then Ok (cur_max, bits, q2)
           else if flag = 2 then Ok (cur_max - 1, bits - 1, q2)
           else if flag = 1 then Ok (if cur_max = 6 then cur_max - 2 else cur_max + 1, bits + 1, q2)
           else
             obind (pop_fixed 3 q2) (\<lambda>(b :: byte, q3).
               if b = 7 then
                 obind (pop_fixed 3 q3) (\<lambda>(c :: byte, q4).
                   if 3 + c = 10 then
                     obind (pop_fixed 3 q4) (\<lambda>(d :: byte, q5).
                       if 3 + c + d = 17 then
                         obind (pop_fixed 6 q5) (\<lambda>(e :: byte, q6). Ok ((- 1) div 2, 3 + c + d + e, q6))
                       else Ok ((- 1) div 2, 3 + c + d, q5))
                   else Ok ((- 1) div 2, 3 + c, q4))
               else Ok (ucast b, b, q3))))"

text \<open>
  The width of the radix-packed integer as the decoder computes it:
  \<^verbatim>\<open>f_most_significant_bit(mult)\<close> for \<^verbatim>\<open>std::size_t const mult = std::pow(base, block) - 1\<close>.
  The power is a double, and its conversion is undefined from \<open>2 ^ 64\<close> on.  Below that the
  double may be rounded, but for the bases up to 7 and the block sizes up to 24 that occur
  the rounding never changes the number of bits, so the width is that of the exact value.
\<close>

definition radix_width :: "int \<Rightarrow> nat \<Rightarrow> nat outcome" where
  "radix_width base block =
     (if 2 ^ 64 \<le> base ^ block then Undefined_behaviour
      else f_most_significant_bit1 False (word_of_int (base ^ block - 1) :: u64))"

text \<open>The loop that takes the digits out of the packed integer.\<close>

fun radix_digits :: "u64 \<Rightarrow> nat \<Rightarrow> u64 \<Rightarrow> 'a::len word list" where
  "radix_digits base 0 val = []"
| "radix_digits base (Suc n) val = ucast (val mod base) # radix_digits base n (val div base)"

text \<open>
  A radix-packed block of the decoder: the width comes from \<open>block\<close>, the size of a full
  block, and \<open>num\<close> digits are taken out.
\<close>

definition pop_radix ::
  "bool \<Rightarrow> int \<Rightarrow> nat \<Rightarrow> nat \<Rightarrow> Bitqueue_pop \<Rightarrow> ('a::len word list \<times> Bitqueue_pop) outcome" where
  "pop_radix asserts base block num q =
     obind (radix_width base block) (\<lambda>B.
     obind (pop_dyn asserts B q) (\<lambda>(val :: u64, q1).
     Ok (radix_digits (word_of_int base) num val, q1)))"

text \<open>
  One iteration of the loop of \<^verbatim>\<open>f_prolix_small_unsigned_masked\<close>; the flag of the result
  tells whether the loop goes on.
\<close>

definition f_prolix_small_unsigned_masked_step ::
  "bool \<Rightarrow> nat \<Rightarrow> nat \<Rightarrow> nat \<Rightarrow> 'a::len word \<Rightarrow> byte \<Rightarrow> Bitqueue_pop
     \<Rightarrow> (bool \<times> 'a word list \<times> 'a word \<times> byte \<times> Bitqueue_pop) outcome" where
  "f_prolix_small_unsigned_masked_step asserts block d_size from cur_max bits q =
     (let to = min d_size (from + block) in
      obind (f_get_max q cur_max bits) (\<lambda>(max1, bits1, q1).
      obind
        (if 7 \<le> max1 then
           obind (POP asserts False (unat bits1) (to - from) q1) (\<lambda>(vals, q2).
           obind (ranges_max vals) (\<lambda>max2. Ok (map (\<lambda>val. val - 1) vals, max2, q2)))
         else
           obind (pop_radix asserts (promoted_plus max1 1) block (to - from) q1) (\<lambda>(vals, q2).
             Ok (map (\<lambda>val. val - 1) vals, max1, q2)))
        (\<lambda>(vals, max2, q2).
           obind (pop_fixed 1 q2) (\<lambda>(masked :: byte, q3).
             Ok (masked \<noteq> 0, vals, max2, bits1, q3)))))"

function f_prolix_small_unsigned_masked_loop ::
  "bool \<Rightarrow> nat \<Rightarrow> nat \<Rightarrow> nat \<Rightarrow> 'a::len word \<Rightarrow> byte \<Rightarrow> Bitqueue_pop
     \<Rightarrow> (nat \<times> 'a word list \<times> 'a word \<times> byte \<times> Bitqueue_pop) outcome" where
  "f_prolix_small_unsigned_masked_loop asserts block d_size from cur_max bits q =
     (if from < d_size then
        if block = 0 then Diverges
        else
          obind (f_prolix_small_unsigned_masked_step asserts block d_size from cur_max bits q)
            (\<lambda>(continue, vals, max1, bits1, q1).
               if continue then
                 obind (f_prolix_small_unsigned_masked_loop asserts block d_size (from + block) max1 bits1 q1)
                   (\<lambda>(from', vals', r). Ok (from', vals @ vals', r))
               else Ok (from, vals, max1, bits1, q1))
      else Ok (from, [], cur_max, bits, q))"
  by pat_completeness auto
termination
  by (relation "measure (\<lambda>(asserts, block, d_size, from, rest). d_size - from)") auto

declare f_prolix_small_unsigned_masked_loop.simps [simp del]

text \<open>\<^verbatim>\<open>f_prolix_small_unsigned_masked\<close>: it starts by setting \<open>bits\<close> to 0.\<close>

definition f_prolix_small_unsigned_masked ::
  "bool \<Rightarrow> nat \<Rightarrow> nat \<Rightarrow> nat \<Rightarrow> 'a::len word \<Rightarrow> Bitqueue_pop
     \<Rightarrow> (nat \<times> 'a word list \<times> 'a word \<times> byte \<times> Bitqueue_pop) outcome" where
  "f_prolix_small_unsigned_masked asserts d_block d_size from cur_max q =
     f_prolix_small_unsigned_masked_loop asserts (min d_block 24) d_size from cur_max 0 q"

lemma f_prolix_small_unsigned_masked_loop_from:
  "f_prolix_small_unsigned_masked_loop asserts block d_size from cur_max bits q = Ok (from', r)
     \<Longrightarrow> from \<le> from'"
proof (induction asserts block d_size "from" cur_max bits q arbitrary: r
       rule: f_prolix_small_unsigned_masked_loop.induct)
  case (1 asserts block d_size "from" cur_max bits q)
  show ?case
  proof (cases "from < d_size \<and> block \<noteq> 0")
    case False
    with "1.prems" show ?thesis
      by (subst (asm) f_prolix_small_unsigned_masked_loop.simps) (auto split: if_splits)
  next
    case True
    with "1.prems" obtain continue vals max1 bits1 q1 where
      step: "f_prolix_small_unsigned_masked_step asserts block d_size from cur_max bits q
               = Ok (continue, vals, max1, bits1, q1)"
      and rest: "(if continue then
                    obind (f_prolix_small_unsigned_masked_loop asserts block d_size (from + block) max1 bits1 q1)
                      (\<lambda>(from', vals', r). Ok (from', vals @ vals', r))
                  else Ok (from, vals, max1, bits1, q1)) = Ok (from', r)"
      by (subst (asm) f_prolix_small_unsigned_masked_loop.simps) (auto simp: obind_eq_Ok)
    show ?thesis
    proof (cases continue)
      case False
      with rest show ?thesis by simp
    next
      case True
      with rest obtain r' where
        "f_prolix_small_unsigned_masked_loop asserts block d_size (from + block) max1 bits1 q1 = Ok (from', r')"
        by (auto simp: obind_eq_Ok)
      then have "from + block \<le> from'"
        using "1.IH" [OF _ _ step refl refl refl refl] True \<open>from < d_size \<and> block \<noteq> 0\<close> by simp
      then show ?thesis by simp
    qed
  qed
qed

text \<open>
  One iteration of the loop of \<^verbatim>\<open>f_prolix_small_unsigned\<close>: the \<^verbatim>\<open>switch\<close> on \<open>max\<close>.
  The result holds \<^verbatim>\<open>from\<close>, which a run of masked blocks advances.
\<close>

definition f_prolix_small_unsigned_step ::
  "bool \<Rightarrow> nat \<Rightarrow> nat \<Rightarrow> nat \<Rightarrow> nat \<Rightarrow> nat \<Rightarrow> 'a::len word \<Rightarrow> byte \<Rightarrow> Bitqueue_pop
     \<Rightarrow> (nat \<times> 'a word list \<times> 'a word \<times> byte \<times> Bitqueue_pop) outcome" where
  "f_prolix_small_unsigned_step asserts d_prolix_bits d_block block d_size from cur_max bits q =
     (let to = min d_size (from + block) in
      obind (f_get_max q cur_max bits) (\<lambda>(max1, bits1, q1).
        if max1 = 0 then
          obind (POP asserts False 0 (to - from) q1) (\<lambda>(vals, q2). Ok (from, vals, max1, bits1, q2))
        else if max1 = 1 then
          obind (POP asserts False 1 (to - from) q1) (\<lambda>(vals, q2). Ok (from, vals, max1, bits1, q2))
        else if max1 = 2 then
          obind (pop_radix asserts 3 block (to - from) q1) (\<lambda>(vals, q2). Ok (from, vals, max1, bits1, q2))
        else if max1 = 3 then
          obind (POP asserts False 2 (to - from) q1) (\<lambda>(vals, q2). Ok (from, vals, max1, bits1, q2))
        else if max1 = 7 then
          obind (POP asserts False 3 (to - from) q1) (\<lambda>(vals, q2). Ok (from, vals, max1, bits1, q2))
        else if max1 < 7 then
          obind (pop_radix asserts (promoted_plus max1 1) block (to - from) q1)
            (\<lambda>(vals, q2). Ok (from, vals, max1, bits1, q2))
        else if unat bits1 = d_prolix_bits then
          f_prolix_small_unsigned_masked asserts d_block d_size from max1 q1
        else
          obind (POP asserts False (unat bits1) (to - from) q1)
            (\<lambda>(vals, q2). Ok (from, vals, max1, bits1, q2))))"

lemma f_prolix_small_unsigned_step_from:
  "f_prolix_small_unsigned_step asserts d_prolix_bits d_block block d_size from cur_max bits q = Ok (from', r)
     \<Longrightarrow> from \<le> from'"
  by (auto simp: f_prolix_small_unsigned_step_def f_prolix_small_unsigned_masked_def Let_def obind_eq_Ok
      split: if_splits dest: f_prolix_small_unsigned_masked_loop_from)

function f_prolix_small_unsigned_blocks ::
  "bool \<Rightarrow> nat \<Rightarrow> nat \<Rightarrow> nat \<Rightarrow> nat \<Rightarrow> nat \<Rightarrow> 'a::len word \<Rightarrow> byte \<Rightarrow> Bitqueue_pop
     \<Rightarrow> 'a word list outcome" where
  "f_prolix_small_unsigned_blocks asserts d_prolix_bits d_block block d_size from cur_max bits q =
     (if from < d_size then
        if block = 0 then Diverges
        else
          obind (f_prolix_small_unsigned_step asserts d_prolix_bits d_block block d_size from cur_max bits q)
            (\<lambda>(from1, vals, max1, bits1, q1).
               obind (f_prolix_small_unsigned_blocks asserts d_prolix_bits d_block block d_size
                        (from1 + block) max1 bits1 q1)
                 (\<lambda>rest. Ok (vals @ rest)))
      else Ok [])"
  by pat_completeness auto
termination
  by (relation "measure (\<lambda>(asserts, d_prolix_bits, d_block, block, d_size, from, rest). d_size - from)")
    (auto dest: f_prolix_small_unsigned_step_from)

declare f_prolix_small_unsigned_blocks.simps [simp del]

definition f_prolix_small_unsigned ::
  "bool \<Rightarrow> bool \<Rightarrow> bool \<Rightarrow> nat \<Rightarrow> nat \<Rightarrow> nat \<Rightarrow> byte list \<Rightarrow> 'a::len word list outcome" where
  "f_prolix_small_unsigned asserts sg d_signed d_prolix_bits d_block d_size frame =
     obind (cxx_assert asserts (d_signed \<longrightarrow> sg)) (\<lambda>_.
     obind (new_Bitqueue_pop asserts frame) (\<lambda>q.
     obind (assert_pop_prefix asserts 0x3FFFC q) (\<lambda>q1.
     f_prolix_small_unsigned_blocks asserts d_prolix_bits d_block (min d_block 24) d_size 0 0 0 q1)))"

text \<open>
  \<^verbatim>\<open>f_prolix\<close>: the first 18 bits of the frame choose the decoder.  Each decoder builds a
  reader of its own, so the bits popped here are not consumed for it.  The template
  argument \<open>N\<close> that \<^verbatim>\<open>prolix\<close> derives from \<open>d_block\<close> only selects the overload inside
  \<open>POP\<close>.
\<close>

definition f_prolix ::
  "bool \<Rightarrow> bool \<Rightarrow> bool \<Rightarrow> nat \<Rightarrow> nat \<Rightarrow> nat \<Rightarrow> byte list \<Rightarrow> 'a::len word list outcome" where
  "f_prolix asserts sg d_signed d_prolix_bits d_block d_size frame =
     obind (new_Bitqueue_pop asserts frame) (\<lambda>q.
     obind (pop_fixed 18 q) (\<lambda>(flag :: u64, q1).
       if flag = 0x3FFFC then f_prolix_small_unsigned asserts sg d_signed d_prolix_bits d_block d_size frame
       else if flag = 0x3FFF8 then f_prolix_unsigned asserts sg d_signed d_prolix_bits d_block d_size frame
       else f_prolix_signed asserts sg d_signed d_block d_size frame))"


section \<open>The container\<close>

text \<open>
  A \<^verbatim>\<open>std::string\<close> of the container.  \<^verbatim>\<open>Terse(STREAM&, XML_element const&)\<close> reads the
  bytes of a metadata string with \<^verbatim>\<open>istream.read((char*)&d_metadata.back(), val)\<close>: the
  destination is the address of the string object, not of its characters
  (\<^verbatim>\<open>d_metadata.back().data()\<close>).  \<open>Clobbered bs\<close> is a string object whose own
  representation has been overwritten with the bytes \<open>bs\<close>; what it holds afterwards is
  not defined by the language.
\<close>

datatype cxx_string = Str string | Clobbered "byte list"

record Terse =
  d_terse_frames :: "byte list list"
  d_signed :: bool
  d_small :: bool
  d_block :: nat
  d_size :: nat
  d_prolix_bits :: nat
  d_dim :: "nat list"
  d_metadata :: "cxx_string list"

text \<open>\<^verbatim>\<open>Terse()\<close>.  The member \<^verbatim>\<open>d_signed\<close> has no initialiser; it is \<open>False\<close> here.\<close>

definition new_Terse :: Terse where
  "new_Terse = \<lparr>d_terse_frames = [], d_signed = False, d_small = False, d_block = 12,
                d_size = 0, d_prolix_bits = 0, d_dim = [], d_metadata = []\<rparr>"

definition number_of_frames :: "Terse \<Rightarrow> nat" where
  "number_of_frames c = length (d_terse_frames c)"

definition f_validate_insert :: "bool \<Rightarrow> bool \<Rightarrow> nat \<Rightarrow> nat \<Rightarrow> nat \<Rightarrow> Terse_mode \<Rightarrow> Terse \<Rightarrow> Terse outcome" where
  "f_validate_insert asserts sg bits_T pos new_size mode c =
     obind (cxx_assert asserts (pos \<le> number_of_frames c)) (\<lambda>_.
     let c1 = c\<lparr>d_prolix_bits := max (d_prolix_bits c) bits_T\<rparr> in
     obind
       (if number_of_frames c1 = 0 then Ok (c1\<lparr>d_size := new_size, d_signed := sg\<rparr>)
        else
          obind (cxx_assert asserts (d_size c1 = new_size)) (\<lambda>_.
          obind (cxx_assert asserts (d_signed c1 = sg)) (\<lambda>_. Ok c1)))
       (\<lambda>c2. obind (cxx_assert asserts (d_signed c2 \<longrightarrow> mode = Signed)) (\<lambda>_. Ok c2)))"

text \<open>
  \<^verbatim>\<open>insert(pos, data, size, mode)\<close> for an iterator \<open>data\<close> over \<open>size\<close> elements, here
  the list \<open>data\<close>.  \<^verbatim>\<open>f_compress\<close> reads \<open>d_size\<close> elements from the iterator, and the
  vectors are given the position \<open>pos\<close>; both are out of range when the assertions that
  guard them are compiled out and do not hold.
\<close>

definition insert_frame :: "bool \<Rightarrow> bool \<Rightarrow> nat \<Rightarrow> 'a::len word list \<Rightarrow> Terse_mode \<Rightarrow> Terse \<Rightarrow> Terse outcome" where
  "insert_frame asserts sg pos data mode c =
     (let mode1 = (if sg then Signed else mode) in
      obind (f_validate_insert asserts sg LENGTH('a) pos (length data) mode1 c) (\<lambda>c1.
        if number_of_frames c1 < pos \<or> length data < d_size c1 then Undefined_behaviour
        else
          obind (f_compress asserts sg (d_small c1) mode1 (d_block c1) (take (d_size c1) data)) (\<lambda>frame.
            Ok (c1\<lparr>d_metadata := take pos (d_metadata c1) @ [Str []] @ drop pos (d_metadata c1),
                    d_terse_frames := take pos (d_terse_frames c1) @ [frame] @ drop pos (d_terse_frames c1)\<rparr>))))"

definition push_back :: "bool \<Rightarrow> bool \<Rightarrow> 'a::len word list \<Rightarrow> Terse_mode \<Rightarrow> Terse \<Rightarrow> Terse outcome" where
  "push_back asserts sg data mode c = insert_frame asserts sg (number_of_frames c) data mode c"

text \<open>\<^verbatim>\<open>dim(std::vector<std::size_t> const&)\<close>.\<close>

definition set_dim :: "bool \<Rightarrow> nat list \<Rightarrow> Terse \<Rightarrow> Terse outcome" where
  "set_dim asserts dim c =
     (let c1 = (if d_dim c = [] \<or> int (d_size c) = (foldr (*) (map int dim) 1) mod 2 ^ 64
                then c\<lparr>d_dim := dim\<rparr> else c) in
      obind (cxx_assert asserts (dim = d_dim c1)) (\<lambda>_. Ok c1))"

text \<open>\<^verbatim>\<open>block_size(std::size_t const&)\<close>: a \<^verbatim>\<open>void\<close>, \<^verbatim>\<open>noexcept\<close> setter.\<close>

definition block_size :: "nat \<Rightarrow> Terse \<Rightarrow> Terse outcome" where
  "block_size block c = Ok (c\<lparr>d_block := (if number_of_frames c = 0 then block else d_block c)\<rparr>)"

text \<open>\<^verbatim>\<open>metadata(pos, data)\<close> and \<^verbatim>\<open>metadata(frame)\<close>.\<close>

definition set_metadata :: "bool \<Rightarrow> nat \<Rightarrow> string \<Rightarrow> Terse \<Rightarrow> Terse outcome" where
  "set_metadata asserts pos data c =
     obind (cxx_assert asserts (pos < number_of_frames c)) (\<lambda>_.
       if pos < length (d_metadata c) then Ok (c\<lparr>d_metadata := (d_metadata c)[pos := Str data]\<rparr>)
       else Undefined_behaviour)"

definition metadata :: "Terse \<Rightarrow> nat \<Rightarrow> cxx_string outcome" where
  "metadata c frame =
     (if frame < length (d_metadata c) then Ok (d_metadata c ! frame) else Undefined_behaviour)"

definition terse_size :: "Terse \<Rightarrow> nat" where
  "terse_size c = sum_list (map length (d_terse_frames c))"

text \<open>\<^verbatim>\<open>ostream << n\<close> for an unsigned integer: its decimal digits.\<close>

function dec :: "nat \<Rightarrow> string" where
  "dec n = (if n < 10 then [char_of (48 + n)] else dec (n div 10) @ [char_of (48 + n mod 10)])"
  by pat_completeness auto
termination
  by (relation "measure id") auto

declare dec.simps [simp del]

fun dec_list :: "nat list \<Rightarrow> string" where
  "dec_list [] = []"
| "dec_list [n] = dec n"
| "dec_list (n # ns) = dec n @ '' '' @ dec_list ns"

definition bytes_of_string :: "string \<Rightarrow> byte list" where
  "bytes_of_string s = map (\<lambda>c. word_of_nat (of_char c)) s"

text \<open>The size and the characters of a string; neither is defined for a clobbered object.\<close>

fun string_chars :: "cxx_string \<Rightarrow> string outcome" where
  "string_chars (Str s) = Ok s"
| "string_chars (Clobbered bs) = Undefined_behaviour"

fun all_chars :: "cxx_string list \<Rightarrow> string list outcome" where
  "all_chars [] = Ok []"
| "all_chars (m # ms) = obind (string_chars m) (\<lambda>s. obind (all_chars ms) (\<lambda>ss. Ok (s # ss)))"

text \<open>
  \<^verbatim>\<open>f_write_metadata\<close>: the XML tag, then the metadata strings.  Its loops over
  \<open>i + 1 \<noteq> size\<close> do not end on an empty list of frames; the callers exclude it.
\<close>

definition xml_attribute :: "string \<Rightarrow> string \<Rightarrow> string" where
  "xml_attribute name val = '' '' @ name @ ''='' @ [CHR 0x22] @ val @ [CHR 0x22]"

definition f_write_metadata :: "Terse \<Rightarrow> byte list outcome" where
  "f_write_metadata c =
     (if d_terse_frames c = [] then Undefined_behaviour
      else
        obind (all_chars (d_metadata c)) (\<lambda>strs.
          Ok (bytes_of_string
               (''<Terse''
                @ xml_attribute ''prolix_bits'' (dec (d_prolix_bits c))
                @ xml_attribute ''signed'' (if d_signed c then ''1'' else ''0'')
                @ xml_attribute ''block'' (dec (d_block c))
                @ xml_attribute ''number_of_values'' (dec (d_size c))
                @ (if d_dim c \<noteq> [] then xml_attribute ''dimensions'' (dec_list (d_dim c)) else [])
                @ xml_attribute ''number_of_frames'' (dec (length (d_terse_frames c)))
                @ xml_attribute ''memory_sizes_of_frames'' (dec_list (map length (d_terse_frames c)))
                @ xml_attribute ''memory_size'' (dec (terse_size c))
                @ (if d_metadata c \<noteq> []
                   then xml_attribute ''metadata_string_sizes'' (dec_list (map length strs)) else [])
                @ ''/>''
                @ concat strs))))"

text \<open>
  \<^verbatim>\<open>write(std::ostream&)\<close>: the result is the content of the stream after the call, for a
  stream that held \<open>ostream\<close> before it.
\<close>

definition write_ostream :: "Terse \<Rightarrow> byte list \<Rightarrow> byte list outcome" where
  "write_ostream c ostream =
     (if number_of_frames c = 0 then Ok ostream
      else obind (f_write_metadata c) (\<lambda>header. Ok (ostream @ header @ concat (d_terse_frames c))))"

definition file_size :: "Terse \<Rightarrow> nat outcome" where
  "file_size c =
     (if number_of_frames c = 0 then Ok 0
      else obind (f_write_metadata c) (\<lambda>header. Ok (length header + terse_size c)))"

text \<open>\<^verbatim>\<open>prolix(begin, frame)\<close> into a buffer whose elements have the type \<open>'a word\<close>.\<close>

definition prolix :: "bool \<Rightarrow> bool \<Rightarrow> nat \<Rightarrow> Terse \<Rightarrow> 'a::len word list outcome" where
  "prolix asserts sg frame c =
     obind (cxx_assert asserts (frame < number_of_frames c)) (\<lambda>_.
       if number_of_frames c \<le> frame then Undefined_behaviour
       else f_prolix asserts sg (d_signed c) (d_prolix_bits c) (d_block c) (d_size c)
              (d_terse_frames c ! frame))"


section \<open>Properties of the container operations\<close>

text \<open>A call fails when it does not return normally.\<close>

definition failed :: "'a outcome \<Rightarrow> bool" where
  "failed r = (case r of Ok _ \<Rightarrow> False | _ \<Rightarrow> True)"

text \<open>
  C10.  \<^verbatim>\<open>write\<close> on a container without frames leaves the stream as it was: no XML
  header and no byte is written; and \<^verbatim>\<open>file_size\<close> of such a container is 0.
\<close>

theorem write_empty_container:
  "number_of_frames c = 0 \<Longrightarrow> write_ostream c ostream = Ok ostream \<and> file_size c = Ok 0"
  by (simp add: write_ostream_def file_size_def)

theorem write_empty_container_witness:
  "number_of_frames new_Terse = 0
   \<and> write_ostream new_Terse [0x41, 0x42] = Ok [0x41, 0x42] \<and> file_size new_Terse = Ok 0"
  using write_empty_container [of new_Terse "[0x41, 0x42]"]
  by (simp add: number_of_frames_def new_Terse_def)

text \<open>
  C9, as the specification states it, asks \<^verbatim>\<open>block_size(b)\<close> to fail on a container that
  holds a frame.  The container below holds the frame that \<^verbatim>\<open>push_back\<close> makes of the
  single 32-bit value 0; \<^verbatim>\<open>block_size(16)\<close> returns normally on it.
\<close>

theorem block_size_nonempty_counterexample:
  "push_back False True [0 :: 32 word] Default new_Terse
     = Ok \<lparr>d_terse_frames = [[1]], d_signed = True, d_small = False, d_block = 12,
           d_size = 1, d_prolix_bits = 32, d_dim = [], d_metadata = [Str []]\<rparr>
   \<and> \<not> failed (block_size 16
          \<lparr>d_terse_frames = [[1]], d_signed = True, d_small = False, d_block = 12,
           d_size = 1, d_prolix_bits = 32, d_dim = [], d_metadata = [Str []]\<rparr>)"
  by code_simp

text \<open>
  C9, amended.  \<^verbatim>\<open>block_size(b)\<close> never fails: on a container that holds a frame it
  returns normally and leaves the container, and so its block size, as it was; on a
  container without frames it sets the block size to \<open>b\<close> and changes nothing else.
\<close>

theorem block_size_silent:
  "\<exists>c'. block_size b c = Ok c'
        \<and> (number_of_frames c \<noteq> 0 \<longrightarrow> c' = c)
        \<and> (number_of_frames c = 0 \<longrightarrow> c' = c\<lparr>d_block := b\<rparr>)"
  by (simp add: block_size_def)

theorem block_size_silent_witness:
  "\<exists>c'. block_size 16 (new_Terse\<lparr>d_terse_frames := [[1]]\<rparr>) = Ok c'
        \<and> number_of_frames (new_Terse\<lparr>d_terse_frames := [[1]]\<rparr>) \<noteq> 0
        \<and> c' = new_Terse\<lparr>d_terse_frames := [[1]]\<rparr> \<and> d_block c' = 12"
  using block_size_silent [of 16 "new_Terse\<lparr>d_terse_frames := [[1]]\<rparr>"]
  by (auto simp: number_of_frames_def new_Terse_def)


section \<open>The header of a Small\_unsigned block\<close>

text \<open>
  C7, as the specification states it, fails under both readings of the header \<open>10\<close>.
  When the two bits are read from the stream as 1 and then 0 and the previous maximum
  is 6, the new maximum is 5 and not 4.  When \<open>10\<close> is the two-bit field of value 2, whose
  bits are read as 0 and then 1, and the previous maximum is 3, the new maximum is 4 and
  not 2.  The containers hold the byte 1 (bits 1, 0) and the byte 2 (bits 0, 1).
\<close>

theorem f_get_max_header_10_counterexample:
  "obind (new_Bitqueue_pop False [0x01])
     (\<lambda>q. obind (f_get_max q (6 :: 8 word) 0) (\<lambda>(m, b, q'). Ok m)) = Ok 5
   \<and> obind (new_Bitqueue_pop False [0x02])
     (\<lambda>q. obind (f_get_max q (3 :: 8 word) 0) (\<lambda>(m, b, q'). Ok m)) = Ok 4"
  by code_simp

text \<open>
  C7, amended.  A header whose first bit is 1 and whose second bit is 0 sets the new
  maximum to the previous one minus 1, for every previous maximum but 0, 6 included (and
  decrements \<open>bits\<close>).  The special case belongs to the other delta: a header whose first
  bit is 0 and whose second bit is 1 sets the new maximum to the previous one plus 1,
  and to 4 when the previous maximum is 6.
\<close>

theorem f_get_max_delta:
  assumes "pop_fixed 1 q = Ok (flag1 :: byte, q1)"
    and "pop_fixed 1 q1 = Ok (flag2 :: byte, q2)"
  shows "(flag1 = 1 \<and> flag2 = 0 \<and> cur_max \<noteq> 0 \<longrightarrow>
            f_get_max q cur_max bits = Ok (cur_max - 1, bits - 1, q2))
       \<and> (flag1 = 0 \<and> flag2 = 1 \<longrightarrow>
            f_get_max q cur_max bits = Ok (if cur_max = 6 then 4 else cur_max + 1, bits + 1, q2))"
  using assms by (auto simp: f_get_max_def)

theorem f_get_max_delta_witness:
  "pop_fixed 1 \<lparr>r_container = [1], r_data = 0, r_buffer = 1, r_buffered_bits = 64\<rparr>
     = Ok (1 :: byte, \<lparr>r_container = [1], r_data = 0, r_buffer = 0, r_buffered_bits = 63\<rparr>)
   \<and> pop_fixed 1 \<lparr>r_container = [1], r_data = 0, r_buffer = 0, r_buffered_bits = 63\<rparr>
     = Ok (0 :: byte, \<lparr>r_container = [1], r_data = 0, r_buffer = 0, r_buffered_bits = 62\<rparr>)
   \<and> f_get_max \<lparr>r_container = [1], r_data = 0, r_buffer = 1, r_buffered_bits = 64\<rparr> (6 :: 8 word) 3
     = Ok (5, 2, \<lparr>r_container = [1], r_data = 0, r_buffer = 0, r_buffered_bits = 62\<rparr>)"
proof -
  have p1: "pop_fixed 1 \<lparr>r_container = [1], r_data = 0, r_buffer = 1, r_buffered_bits = 64\<rparr>
     = Ok (1 :: byte, \<lparr>r_container = [1], r_data = 0, r_buffer = 0, r_buffered_bits = 63\<rparr>)"
    by code_simp
  have p2: "pop_fixed 1 \<lparr>r_container = [1], r_data = 0, r_buffer = 0, r_buffered_bits = 63\<rparr>
     = Ok (0 :: byte, \<lparr>r_container = [1], r_data = 0, r_buffer = 0, r_buffered_bits = 62\<rparr>)"
    by code_simp
  from f_get_max_delta [OF p1 p2, of "6 :: 8 word" 3] p1 p2 show ?thesis
    by simp
qed


section \<open>Reading a container from a stream\<close>

text \<open>
  \<^verbatim>\<open>XML_element.hpp\<close> is not among the sources.  The constructor
  \<^verbatim>\<open>Terse(STREAM&, XML_element const&)\<close> only asks the element for attribute values, so the
  element is a parameter here: the function \<open>xmle\<close> from attribute names to values, with
  the empty string for an attribute that is absent.  The stream is the list of the bytes
  that follow the tag.
\<close>

definition is_space :: "char \<Rightarrow> bool" where
  "is_space c = (c \<in> set [CHR '' '', CHR 0x09, CHR 0x0A, CHR 0x0B, CHR 0x0C, CHR 0x0D])"

definition is_digit :: "char \<Rightarrow> bool" where
  "is_digit c = (48 \<le> (of_char c :: nat) \<and> (of_char c :: nat) \<le> 57)"

definition digits_value :: "string \<Rightarrow> nat" where
  "digits_value ds = foldl (\<lambda>a c. 10 * a + (of_char c - 48)) 0 ds"

text \<open>
  \<^verbatim>\<open>std::stoul\<close> and \<^verbatim>\<open>std::stoull\<close> on a decimal number: white space, then digits.
  Without a digit they throw \<^verbatim>\<open>std::invalid_argument\<close>.  Signs and values that do not fit
  64 bits are not modelled; the header that \<^verbatim>\<open>f_write_metadata\<close> writes has neither.
\<close>

definition stoul :: "string \<Rightarrow> nat outcome" where
  "stoul s =
     (let ds = takeWhile is_digit (dropWhile is_space s) in
      if ds = [] then Invalid_argument else Ok (digits_value ds))"

lemma dropWhile_takeWhile_shorter:
  "takeWhile P (dropWhile Q s) \<noteq> [] \<Longrightarrow> length (dropWhile P (dropWhile Q s)) < length s"
proof -
  assume ne: "takeWhile P (dropWhile Q s) \<noteq> []"
  have "length (takeWhile P (dropWhile Q s)) + length (dropWhile P (dropWhile Q s))
          = length (dropWhile Q s)"
    by (metis length_append takeWhile_dropWhile_id)
  moreover have "length (dropWhile Q s) \<le> length s"
    by (simp add: length_dropWhile_le)
  moreover from ne have "0 < length (takeWhile P (dropWhile Q s))"
    by simp
  ultimately show ?thesis
    by linarith
qed

text \<open>The loop \<^verbatim>\<open>while (str >> val)\<close> over an \<^verbatim>\<open>unsigned int\<close>.\<close>

function read_unsigneds :: "string \<Rightarrow> nat list" where
  "read_unsigneds s =
     (let ds = takeWhile is_digit (dropWhile is_space s) in
      if ds = [] \<or> 2 ^ 32 \<le> int (digits_value ds) then []
      else digits_value ds # read_unsigneds (dropWhile is_digit (dropWhile is_space s)))"
  by pat_completeness auto
termination
  by (relation "measure length") (auto simp: dropWhile_takeWhile_shorter)

declare read_unsigneds.simps [simp del]

text \<open>
  \<^verbatim>\<open>istream.read(buffer, n)\<close> into a buffer of \<open>n\<close> zeroed or blank bytes: the bytes the
  stream still has, at most \<open>n\<close>, and the rest of the stream.
\<close>

definition stream_read :: "nat \<Rightarrow> byte list \<Rightarrow> byte list \<times> byte list" where
  "stream_read n istream = (take n istream, drop n istream)"

text \<open>
  The loop over \<^verbatim>\<open>metadata_string_sizes\<close>.  Each string is made of \<open>val\<close> blanks, and the
  bytes read from the stream are stored at the address of the string object.
\<close>

fun read_metadata :: "nat list \<Rightarrow> byte list \<Rightarrow> cxx_string list \<times> byte list" where
  "read_metadata [] istream = ([], istream)"
| "read_metadata (val # vals) istream =
     (let (bs, istream1) = stream_read val istream;
          (ms, istream2) = read_metadata vals istream1
      in ((if bs = [] then Str (replicate val (CHR '' '')) else Clobbered bs) # ms, istream2))"

text \<open>
  The loop over \<^verbatim>\<open>memory_sizes_of_frames\<close>: \<open>n\<close> frames; a size that cannot be extracted
  is 0.
\<close>

fun read_frames :: "nat \<Rightarrow> nat list \<Rightarrow> byte list \<Rightarrow> byte list list \<times> byte list" where
  "read_frames 0 sizes istream = ([], istream)"
| "read_frames (Suc n) sizes istream =
     (let val = (case sizes of [] \<Rightarrow> 0 | v # _ \<Rightarrow> v);
          (bs, istream1) = stream_read val istream;
          (frames, istream2) = read_frames n (tl sizes) istream1
      in ((bs @ replicate (val - length bs) 0) # frames, istream2))"

text \<open>
  The walk of \<^verbatim>\<open>f_fill_terse_frames\<close> over the blocks of one frame.  The source reads the
  first bit of a header with \<^verbatim>\<open>pop<1,bool>()\<close>, an instance that the constraint of
  \<^verbatim>\<open>pop<B>(std::span<T,N>)\<close> excludes; it is read here as the pop of one bit, so that the
  header is the one of \<open>BITS\<close>.
\<close>

function walk_blocks :: "nat \<Rightarrow> nat \<Rightarrow> nat \<Rightarrow> byte \<Rightarrow> Bitqueue_pop \<Rightarrow> Bitqueue_pop outcome" where
  "walk_blocks block frame_size from significant_bits q =
     (if from < frame_size then
        if block = 0 then Diverges
        else
          obind (BITS significant_bits q) (\<lambda>(significant_bits1, q1).
            walk_blocks block frame_size (from + block) significant_bits1
              (pop_skip (unat significant_bits1 * min block (frame_size - from)) q1))
      else Ok q)"
  by pat_completeness auto
termination
  by (relation "measure (\<lambda>(block, frame_size, from, rest). frame_size - from)") auto

declare walk_blocks.simps [simp del]

text \<open>
  The loop over the frames: every frame is walked by a reader that is built on the whole
  blob, and its size is the distance of that reader from \<^verbatim>\<open>terse_begin\<close>.  A negative
  distance becomes a huge \<^verbatim>\<open>std::size_t\<close> that no allocation can serve.
\<close>

fun walk_frames :: "bool \<Rightarrow> nat \<Rightarrow> nat \<Rightarrow> byte list \<Rightarrow> nat \<Rightarrow> nat \<Rightarrow> nat list outcome" where
  "walk_frames asserts block frame_size blob 0 terse_begin = Ok []"
| "walk_frames asserts block frame_size blob (Suc n) terse_begin =
     obind (new_Bitqueue_pop asserts blob) (\<lambda>q.
     obind (walk_blocks block frame_size 0 0 q) (\<lambda>q1.
       let d = pop_distance q1 terse_begin in
       if d < 0 then Undefined_behaviour
       else
         obind (walk_frames asserts block frame_size blob n (terse_begin + nat d))
           (\<lambda>terse_sizes. Ok (nat d # terse_sizes))))"

text \<open>The copies out of the blob, from \<^verbatim>\<open>data_start\<close> on, for the frames after the first.\<close>

fun split_frames :: "byte list \<Rightarrow> nat \<Rightarrow> nat list \<Rightarrow> byte list list outcome" where
  "split_frames blob data_start [] = Ok []"
| "split_frames blob data_start (n # ns) =
     (if length blob < data_start + n then Undefined_behaviour
      else obind (split_frames blob (data_start + n) ns)
             (\<lambda>frames. Ok (take n (drop data_start blob) # frames)))"

text \<open>\<^verbatim>\<open>f_fill_terse_frames\<close> for a container with \<open>n\<close> (empty) frames.\<close>

definition f_fill_terse_frames ::
  "bool \<Rightarrow> nat \<Rightarrow> nat \<Rightarrow> nat \<Rightarrow> nat \<Rightarrow> byte list \<Rightarrow> (byte list list \<times> byte list) outcome" where
  "f_fill_terse_frames asserts block frame_size n number_of_bytes istream =
     (if n = 0 then Undefined_behaviour
      else
        let (bs, istream1) = stream_read number_of_bytes istream;
            blob = bs @ replicate (number_of_bytes - length bs) 0 in
        obind (walk_frames asserts block frame_size blob n 0) (\<lambda>terse_sizes.
        obind (split_frames blob (hd terse_sizes) (tl terse_sizes)) (\<lambda>frames.
          Ok ((take (hd terse_sizes) blob @ replicate (hd terse_sizes - length blob) 0) # frames,
              istream1))))"

text \<open>
  \<^verbatim>\<open>Terse(STREAM& istream, XML_element const& xmle)\<close>; \<open>eof\<close> is \<^verbatim>\<open>istream.eof()\<close> after
  the search for the tag.  The result holds the container and the rest of the stream.
\<close>

definition Terse_from_stream ::
  "bool \<Rightarrow> (string \<Rightarrow> string) \<Rightarrow> bool \<Rightarrow> byte list \<Rightarrow> (Terse \<times> byte list) outcome" where
  "Terse_from_stream asserts xmle eof istream =
     (if eof then Ok (new_Terse, istream)
      else
        obind (stoul (xmle ''prolix_bits'')) (\<lambda>prolix_bits.
        obind (stoul (xmle ''signed'')) (\<lambda>is_signed.
        obind (stoul (xmle ''block'')) (\<lambda>block.
        obind (stoul (xmle ''number_of_values'')) (\<lambda>number_of_values.
          let block_int = int block mod 2 ^ 32;
              (meta, istream1) =
                (if xmle ''metadata_string_sizes'' \<noteq> []
                 then read_metadata (read_unsigneds (xmle ''metadata_string_sizes'')) istream
                 else ([], istream));
              c = \<lparr>d_terse_frames = [], d_signed = (is_signed \<noteq> 0), d_small = False,
                   d_block = nat (if block_int < 2 ^ 31 then block_int else 2 ^ 64 - 2 ^ 32 + block_int),
                   d_size = number_of_values, d_prolix_bits = nat (int prolix_bits mod 2 ^ 32),
                   d_dim = read_unsigneds (xmle ''dimensions''), d_metadata = meta\<rparr>
          in
          obind (stoul (xmle ''number_of_frames'')) (\<lambda>n.
            if xmle ''memory_sizes_of_frames'' = [] then
              obind (stoul (xmle ''memory_size'')) (\<lambda>memory_size.
              obind (f_fill_terse_frames asserts (d_block c) (d_size c) n memory_size istream1)
                (\<lambda>(frames, istream2). Ok (c\<lparr>d_terse_frames := frames\<rparr>, istream2)))
            else
              let (frames, istream2) =
                    read_frames n (read_unsigneds (xmle ''memory_sizes_of_frames'')) istream1
              in Ok (c\<lparr>d_terse_frames := frames\<rparr>, istream2)))))))"


section \<open>Round trip\<close>

text \<open>
  A frame compressed into a container with block size \<open>block\<close> and decompressed again into
  a buffer of the same element type.
\<close>

definition roundtrip :: "bool \<Rightarrow> bool \<Rightarrow> Terse_mode \<Rightarrow> nat \<Rightarrow> 'a::len word list \<Rightarrow> 'a word list outcome" where
  "roundtrip asserts sg mode block data =
     obind (block_size block new_Terse) (\<lambda>c0.
     obind (push_back asserts sg data mode c0) (\<lambda>c1. prolix asserts sg 0 c1))"

text \<open>
  C1 fails on the code.  The frame of the two \<^verbatim>\<open>uint8_t\<close> values 255 and 254, block size
  12, mode Small\_unsigned, is not decompressed to the two values in either build.  With
  assertions enabled the constructor of the writer aborts, since the initial size 14 of
  the frame is not a multiple of 8.  With \<^verbatim>\<open>NDEBUG\<close> the frame is the six bytes below, and
  the decoder, which then never consumes the 18-bit prefix, takes a width of 80 bits from
  it.  The third statement starts the decoder behind the prefix, as a build would that
  evaluates the assertion on the prefix and no other: \<^verbatim>\<open>f_compress_masked\<close> has set
  \<^verbatim>\<open>prevbits\<close> to 9 and writes the width 8 as the delta \<open>prevbits - 1\<close>, whereas
  \<^verbatim>\<open>f_prolix_small_unsigned_masked\<close> starts from \<^verbatim>\<open>bits = 0\<close> and decrements it to 255.
\<close>

theorem roundtrip_small_unsigned_masked_fails:
  "roundtrip True False Small_unsigned 12 [255, 254 :: 8 word] = Assertion_failed
   \<and> roundtrip False False Small_unsigned 12 [255, 254 :: 8 word] = Undefined_behaviour
   \<and> f_compress False False False Small_unsigned 12 [255, 254 :: 8 word]
       = Ok [252, 255, 243, 6, 240, 15]
   \<and> obind (new_Bitqueue_pop False [252, 255, 243, 6, 240, 15]) (\<lambda>q.
       obind (pop_fixed 18 q) (\<lambda>(flag :: u64, q1).
         (f_prolix_small_unsigned_blocks False 8 12 12 2 0 0 0 q1 :: 8 word list outcome)))
       = Undefined_behaviour"
  by code_simp

text \<open>
  In a build with \<^verbatim>\<open>NDEBUG\<close> the decoder of the mode Unsigned does not consume the prefix
  either: the single value 1 comes back as 15.
\<close>

lemma roundtrip_unsigned_release_build:
  "roundtrip False False Unsigned 12 [1 :: 8 word] = Ok [15]"
  by code_simp

text \<open>The mode Signed does return its input in that build, as in this example.\<close>

lemma roundtrip_signed_release_build:
  "roundtrip False True Signed 12 [1, - 2, 3, - 4, 5, - 6, 7, - 8, 9, - 10, 11, - 12, 13, - 14 :: 32 word]
     = Ok [1, - 2, 3, - 4, 5, - 6, 7, - 8, 9, - 10, 11, - 12, 13, - 14]"
  by code_simp

section \<open>The length of a compressed frame\<close>

text \<open>
  C2 fails on the code.  The frame of the single 32-bit value 0 in the mode Signed holds
  one bit and is one byte long; with assertions enabled no frame is produced at all,
  because the constructor of the writer asserts that the size of its container, 50 here,
  is a multiple of 8.
\<close>

theorem compressed_frame_length_not_multiple_of_8:
  "f_compress False True False Signed 12 [0 :: 32 word] = Ok [1]
   \<and> \<not> 8 dvd length [1 :: byte]
   \<and> f_compress True True False Signed 12 [0 :: 32 word] = Assertion_failed"
  by code_simp

section \<open>The last block of a frame\<close>

text \<open>
  C5 fails on the code.  For the frame of the single \<^verbatim>\<open>uint8_t\<close> value 2, block size 12,
  the last block has the length 1.  The encoder writes 5 bits of header and a radix-packed
  integer of 2 bits, the width for one digit in base 3.  The decoder, given exactly these
  bits, takes 5 bits of header and then an integer of 20 bits, the width for twelve digits:
  25 of its 64 buffered bits are gone after the block.  The digits it returns depend on
  bits that the encoder never wrote: with a byte 1 behind the four bytes of the frame the
  value 2 is decompressed as 1.
\<close>

theorem last_block_radix_width_differs:
  "obind (f_compress_weak_block False [2 :: 8 word]
            \<lparr>w_flushed = [], w_buffer = 0, w_buffered_bits = 0\<rparr> 2 0)
     (\<lambda>q. Ok (w_buffered_bits q, finish_frame q)) = Ok (7, [72])
   \<and> obind (f_prolix_small_unsigned_step False 8 12 12 1 0 (0 :: 8 word) 0
            \<lparr>r_container = [72], r_data = 0, r_buffer = 72, r_buffered_bits = 64\<rparr>)
     (\<lambda>(from1, vals, max1, bits1, q). Ok (vals, 64 - r_buffered_bits q)) = Ok ([2], 25)
   \<and> radix_width 3 1 = Ok 2 \<and> radix_width 3 12 = Ok 20
   \<and> f_compress False False False Small_unsigned 12 [2 :: 8 word] = Ok [252, 255, 35, 1]
   \<and> (f_prolix True False False 8 12 1 ([252, 255, 35, 1] @ [1, 0, 0, 0]) :: 8 word list outcome)
       = Ok [1]"
  by code_simp

section \<open>The header walk\<close>

text \<open>
  C3 fails on the code.  Two frames of twelve 32-bit values 1 each, mode Signed, block
  size 12, are four bytes each, and \<^verbatim>\<open>f_write_metadata\<close> records the sizes 4 and 4.  The
  walk of \<^verbatim>\<open>f_fill_terse_frames\<close> over the eight bytes finds the sizes 5 and 0, in either
  build, and splits the blob accordingly.
\<close>

theorem header_walk_sizes_differ:
  "obind (push_back False True (replicate 12 (1 :: 32 word)) Signed new_Terse) (\<lambda>c1.
   obind (push_back False True (replicate 12 (1 :: 32 word)) Signed c1) (\<lambda>c2.
     Ok (map length (d_terse_frames c2), concat (d_terse_frames c2))))
     = Ok ([4, 4], [84, 85, 85, 5, 84, 85, 85, 5])
   \<and> walk_frames False 12 12 [84, 85, 85, 5, 84, 85, 85, 5] 2 0 = Ok [5, 0]
   \<and> walk_frames True 12 12 [84, 85, 85, 5, 84, 85, 85, 5] 2 0 = Ok [5, 0]
   \<and> f_fill_terse_frames False 12 12 2 8 [84, 85, 85, 5, 84, 85, 85, 5]
       = Ok ([[84, 85, 85, 5, 84], []], [])"
  by code_simp

section \<open>Metadata read back from a stream\<close>

text \<open>
  The scenario S5 of the specification: two frames of sixteen 32-bit values, the first
  filled with 0 and the second with 1, of shape 4 by 4, with the metadata strings
  \<open>first\<close> and \<open>second-meta\<close>.
\<close>

definition S5_container :: "bool \<Rightarrow> Terse outcome" where
  "S5_container asserts =
     obind (push_back asserts True (replicate 16 (0 :: 32 word)) Default new_Terse) (\<lambda>c1.
     obind (push_back asserts True (replicate 16 (1 :: 32 word)) Default c1) (\<lambda>c2.
     obind (set_dim asserts [4, 4] c2) (\<lambda>c3.
     obind (set_metadata asserts 0 ''first'' c3) (\<lambda>c4.
     set_metadata asserts 1 ''second-meta'' c4))))"

text \<open>The attributes of the tag that \<^verbatim>\<open>write\<close> emits for it, and the tag itself.\<close>

definition S5_attributes :: "(string \<times> string) list" where
  "S5_attributes =
     [(''prolix_bits'', ''32''), (''signed'', ''1''), (''block'', ''12''),
      (''number_of_values'', ''16''), (''dimensions'', ''4 4''), (''number_of_frames'', ''2''),
      (''memory_sizes_of_frames'', ''1 5''), (''memory_size'', ''6''),
      (''metadata_string_sizes'', ''5 11'')]"

definition S5_tag :: string where
  "S5_tag = ''<Terse'' @ concat (map (\<lambda>(name, val). xml_attribute name val) S5_attributes) @ ''/>''"

definition S5_xmle :: "string \<Rightarrow> string" where
  "S5_xmle name = (case map_of S5_attributes name of None \<Rightarrow> [] | Some val \<Rightarrow> val)"

text \<open>
  C8 fails on the code.  With assertions enabled the first \<^verbatim>\<open>push_back\<close> aborts (the
  initial size 50 of the frame is not a multiple of 8).  With \<^verbatim>\<open>NDEBUG\<close> the container is
  written as the tag, the two strings and the two frames, six bytes in all; reading the
  bytes behind the tag back gives a container of two frames whose metadata strings are
  clobbered objects, not the strings that were written.
\<close>

theorem metadata_read_back_clobbered:
  "S5_container True = Assertion_failed
   \<and> obind (S5_container False) (\<lambda>c. write_ostream c [])
       = Ok (bytes_of_string (S5_tag @ ''first'' @ ''second-meta'') @ [3] @ [84, 85, 85, 181, 10])
   \<and> obind (Terse_from_stream False S5_xmle False
              (bytes_of_string (''first'' @ ''second-meta'') @ [3] @ [84, 85, 85, 181, 10]))
       (\<lambda>(c, rest). Ok (number_of_frames c, metadata c 0, metadata c 1))
       = Ok (2, Ok (Clobbered (bytes_of_string ''first'')),
                Ok (Clobbered (bytes_of_string ''second-meta'')))
   \<and> Clobbered (bytes_of_string ''first'') \<noteq> Str ''first''"
  by code_simp

section \<open>Masked blocks of the mode Unsigned\<close>

text \<open>
  The decrement of a payload wraps unless the element type is a signed type of the width
  of \<^verbatim>\<open>int\<close> or more and the value its most negative one; \<^verbatim>\<open>POP\<close> fills as many
  values as it is asked for.  The two lemmas that follow them are the pass through the
  loop of \<^verbatim>\<open>f_compress\<close> (mode Unsigned) and through the loop of \<^verbatim>\<open>f_prolix_unsigned\<close> for
  a masked block.
\<close>

lemma decrement_all_Ok:
  fixes vals :: "'a::len word list"
  assumes "sg \<and> 32 \<le> LENGTH('a) \<longrightarrow> (\<forall>val \<in> set vals. sint val \<noteq> - (2 ^ (LENGTH('a) - 1)))"
  shows "decrement_all sg vals = Ok (map (\<lambda>val. val - 1) vals)"
  using assms by (induction vals) (auto simp: pre_decrement_def)

lemma pop_vals_length:
  "pop_vals sg B n q = Ok (vals, q1) \<Longrightarrow> length vals = n"
proof (induction n arbitrary: q vals q1)
  case 0
  then show ?case by simp
next
  case (Suc n)
  from Suc.prems obtain p q2 ps q3 where "pop_vals sg B n q2 = Ok (ps, q3)" and "vals = p # ps"
    by (auto simp: obind_eq_Ok)
  with Suc.IH show ?case by auto
qed

lemma POP_length:
  "POP asserts sg bits num q = Ok (vals, q1) \<Longrightarrow> length vals = num"
  by (auto simp: POP_def pop_span_def obind_eq_Ok pop_vals_length split: if_splits)

lemma f_compress_blocks_masked:
  fixes data :: "'a::len word list"
  assumes "from < length data" and "block \<noteq> 0"
    and "data_block = take block (drop from data)"
    and "f_most_significant_bit False data_block = Ok LENGTH('a)"
    and "buffer1 = map (\<lambda>val. val + 1) data_block @ drop (length data_block) buffer"
    and "f_most_significant_bit False buffer1 = Ok masked_width"
  shows "f_compress_blocks asserts False Unsigned block data buffer from prevbits prevmasked_bits w
    = obind (PUSH_BITS prevbits LENGTH('a) w) (\<lambda>w1.
      obind (PUSH_BITS prevmasked_bits masked_width w1) (\<lambda>w2.
      obind (push_back_dyn asserts False masked_width buffer1 w2) (\<lambda>w3.
        f_compress_blocks asserts False Unsigned block data buffer1 (from + block)
          LENGTH('a) masked_width w3)))"
  using assms by (subst f_compress_blocks.simps) (simp add: Let_def)

lemma f_prolix_unsigned_blocks_masked:
  fixes vals :: "'b::len word list"
  assumes "from < frame_size" and "block \<noteq> 0"
    and "BITS significant_bits q = Ok (significant_bits1, q1)"
    and "unat significant_bits1 = prolix_bits"
    and "BITS masked_bits q1 = Ok (masked_bits1, q2)"
    and "POP asserts sg (unat masked_bits1) (min frame_size (from + block) - from) q2 = Ok (vals, q3)"
    and "sg \<and> 32 \<le> LENGTH('b) \<longrightarrow> (\<forall>val \<in> set vals. sint val \<noteq> - (2 ^ (LENGTH('b) - 1)))"
    and "f_prolix_unsigned_blocks asserts sg prolix_bits block frame_size (from + block)
           significant_bits1 masked_bits1 q3 = Ok rest"
  shows "f_prolix_unsigned_blocks asserts sg prolix_bits block frame_size from
           significant_bits masked_bits q = Ok (map (\<lambda>val. val - 1) vals @ rest)"
  using assms decrement_all_Ok [of sg vals]
  by (subst f_prolix_unsigned_blocks.simps) simp

lemma plus_one_eq_0_iff:
  "(val :: 'a::len word) + 1 = 0 \<longleftrightarrow> unat val = 2 ^ LENGTH('a) - 1"
proof
  assume "val + 1 = 0"
  then have "val = - 1"
    by (simp add: eq_neg_iff_add_eq_0)
  then show "unat val = 2 ^ LENGTH('a) - 1"
    by (simp add: unsigned_minus_1_eq_mask mask_eq_exp_minus_1)
next
  assume "unat val = 2 ^ LENGTH('a) - 1"
  then have "unat val = unat (- 1 :: 'a word)"
    by (simp add: unsigned_minus_1_eq_mask mask_eq_exp_minus_1)
  then have "val = - 1"
    by (simp only: word_unat_eq_iff)
  then show "val + 1 = 0"
    by simp
qed

text \<open>
  C4, as the specification states it, fails on the code.  In the frame below, of 28
  \<^verbatim>\<open>uint8_t\<close> values and block size 14, the first block holds the value 255 and is a masked
  block.  Decompression returns 255 for that pixel, not 0.  (The sizes are chosen so that
  the assertions of the two Bitqueue constructors hold.)
\<close>

theorem unsigned_masked_pixel_counterexample:
  "roundtrip True False Unsigned 14 (255 # 1 # replicate 26 0 :: 8 word list)
     = Ok (255 # 1 # replicate 26 0)
   \<and> (255 :: 8 word) \<noteq> 0"
  by code_simp

text \<open>
  C4, amended.  \<open>data\<close> is a frame of the unsigned element type \<open>T\<close> of \<open>P\<close> bits
  (\<open>LENGTH('a)\<close>), compressed in the mode Unsigned, and \<open>data_block\<close> its block at the
  position \<open>from\<close>, a masked block: \<^verbatim>\<open>f_most_significant_bit\<close> gives it the width \<open>P\<close>.
  The output of the decoder has the element type \<open>'b word\<close> of \<open>W\<close> bits (\<open>LENGTH('b)\<close>),
  signed or not, which need not be \<open>T\<close>.

  \<^item> The encoder writes the header of width \<open>P\<close>, then the header of the masked width and
    the payload \<open>buffer1\<close>, which holds \<open>val + 1\<close>, computed in \<open>T\<close>, for every pixel \<open>val\<close> of
    the block: the stored value is 0 exactly for a pixel that was \<open>2 ^ P - 1\<close>.
  \<^item> The decoder, on a block whose header width equals the bit depth \<open>d_prolix_bits\<close> of
    the container, reads the header of the masked width and the payload \<open>vals\<close>, and
    subtracts 1 from each payload value in the arithmetic of the element type of the
    output (which is undefined only for the most negative value of a signed type of the
    width of \<^verbatim>\<open>int\<close> or more).  The subtraction wraps, nothing is clamped: a payload value
    0 is decompressed as the value with all bits set, \<open>2 ^ W - 1\<close> read as unsigned, never
    as 0; that is \<open>2 ^ P - 1\<close> again when the output type has \<open>P\<close> bits, be \<open>P\<close> read as
    the number of bits of \<open>T\<close> or as the bit depth \<open>d_prolix_bits\<close>.
  \<^item> A pixel whose payload value is read as it was written is decompressed as
    \<open>val + 1\<close> (in \<open>T\<close>, converted to the output type) minus 1.
\<close>

theorem masked_block_unsigned:
  fixes data :: "'a::len word list" and vals :: "'b::len word list"
  assumes pos: "from < length data" and blk: "block \<noteq> 0"
    and data_block: "data_block = take block (drop from data)"
    and enc_masked: "f_most_significant_bit False data_block = Ok LENGTH('a)"
    and buffer1: "buffer1 = map (\<lambda>val. val + 1) data_block @ drop (length data_block) buffer"
    and enc_width: "f_most_significant_bit False buffer1 = Ok masked_width"
    and hdr: "BITS significant_bits q = Ok (significant_bits1, q1)"
    and hdrP: "unat significant_bits1 = prolix_bits"
    and mhdr: "BITS masked_bits q1 = Ok (masked_bits1, q2)"
    and payload: "POP asserts sg (unat masked_bits1) (min (length data) (from + block) - from) q2
                    = Ok (vals, q3)"
    and noovf: "sg \<and> 32 \<le> LENGTH('b) \<longrightarrow> (\<forall>val \<in> set vals. sint val \<noteq> - (2 ^ (LENGTH('b) - 1)))"
    and rest: "f_prolix_unsigned_blocks asserts sg prolix_bits block (length data) (from + block)
                 significant_bits1 masked_bits1 q3 = Ok rest"
  shows "f_compress_blocks asserts False Unsigned block data buffer from prevbits prevmasked_bits w
           = obind (PUSH_BITS prevbits LENGTH('a) w) (\<lambda>w1.
             obind (PUSH_BITS prevmasked_bits masked_width w1) (\<lambda>w2.
             obind (push_back_dyn asserts False masked_width buffer1 w2) (\<lambda>w3.
               f_compress_blocks asserts False Unsigned block data buffer1 (from + block)
                 LENGTH('a) masked_width w3)))
         \<and> f_prolix_unsigned_blocks asserts sg prolix_bits block (length data) from
             significant_bits masked_bits q = Ok (map (\<lambda>val. val - 1) vals @ rest)
         \<and> length vals = length data_block
         \<and> (\<forall>i < length data_block.
               buffer1 ! i = data_block ! i + 1
             \<and> (buffer1 ! i = 0 \<longleftrightarrow> unat (data_block ! i) = 2 ^ LENGTH('a) - 1)
             \<and> (map (\<lambda>val. val - 1) vals @ rest) ! i = vals ! i - 1
             \<and> (vals ! i = 0 \<longrightarrow>
                  unat ((map (\<lambda>val. val - 1) vals @ rest) ! i) = 2 ^ LENGTH('b) - 1
                \<and> (map (\<lambda>val. val - 1) vals @ rest) ! i \<noteq> 0
                \<and> (LENGTH('b) = LENGTH('a) \<longrightarrow>
                     unat ((map (\<lambda>val. val - 1) vals @ rest) ! i) = 2 ^ LENGTH('a) - 1)
                \<and> (LENGTH('b) = prolix_bits \<longrightarrow>
                     unat ((map (\<lambda>val. val - 1) vals @ rest) ! i) = 2 ^ prolix_bits - 1))
             \<and> (vals ! i = ucast (buffer1 ! i) \<longrightarrow>
                  (map (\<lambda>val. val - 1) vals @ rest) ! i = ucast (data_block ! i + 1) - 1))"
proof -
  let ?out = "map (\<lambda>val. val - 1) vals @ rest"
  have enc: "f_compress_blocks asserts False Unsigned block data buffer from prevbits prevmasked_bits w
           = obind (PUSH_BITS prevbits LENGTH('a) w) (\<lambda>w1.
             obind (PUSH_BITS prevmasked_bits masked_width w1) (\<lambda>w2.
             obind (push_back_dyn asserts False masked_width buffer1 w2) (\<lambda>w3.
               f_compress_blocks asserts False Unsigned block data buffer1 (from + block)
                 LENGTH('a) masked_width w3)))"
    by (rule f_compress_blocks_masked [OF pos blk data_block enc_masked buffer1 enc_width])
  have dec: "f_prolix_unsigned_blocks asserts sg prolix_bits block (length data) from
             significant_bits masked_bits q = Ok ?out"
    by (rule f_prolix_unsigned_blocks_masked [OF pos blk hdr hdrP mhdr payload noovf rest])
  have len: "length vals = length data_block"
    using POP_length [OF payload] pos by (auto simp: data_block min_def)
  have px: "buffer1 ! i = data_block ! i + 1
      \<and> (buffer1 ! i = 0 \<longleftrightarrow> unat (data_block ! i) = 2 ^ LENGTH('a) - 1)
      \<and> ?out ! i = vals ! i - 1
      \<and> (vals ! i = 0 \<longrightarrow>
           unat (?out ! i) = 2 ^ LENGTH('b) - 1 \<and> ?out ! i \<noteq> 0
         \<and> (LENGTH('b) = LENGTH('a) \<longrightarrow> unat (?out ! i) = 2 ^ LENGTH('a) - 1)
         \<and> (LENGTH('b) = prolix_bits \<longrightarrow> unat (?out ! i) = 2 ^ prolix_bits - 1))
      \<and> (vals ! i = ucast (buffer1 ! i) \<longrightarrow> ?out ! i = ucast (data_block ! i + 1) - 1)"
    if i: "i < length data_block" for i
  proof -
    from i have b: "buffer1 ! i = data_block ! i + 1"
      by (simp add: buffer1 nth_append)
    from b have z: "buffer1 ! i = 0 \<longleftrightarrow> unat (data_block ! i) = 2 ^ LENGTH('a) - 1"
      by (simp add: plus_one_eq_0_iff)
    from i len have o: "?out ! i = vals ! i - 1"
      by (simp add: nth_append)
    have m: "unat (- 1 :: 'b word) = 2 ^ LENGTH('b) - 1"
      by (simp add: unsigned_minus_1_eq_mask mask_eq_exp_minus_1)
    have nz: "(- 1 :: 'b word) \<noteq> 0"
      by simp
    from b o m nz z show ?thesis
      by auto
  qed
  from enc dec len px show ?thesis
    by blast
qed

text \<open>
  The witness is the frame that holds the two \<^verbatim>\<open>uint8_t\<close> values 255 and 7, with the block
  size 12.  The writer holds the 18 bits of the prefix of the mode; the reader holds the
  ten bytes that \<^verbatim>\<open>f_compress\<close> makes of the frame and has consumed the prefix.  The block
  is written with the masked width 4 and is decompressed as 255 and 7.
\<close>

theorem masked_block_unsigned_witness:
  "f_most_significant_bit False [255, 7 :: 8 word] = Ok LENGTH(8)
   \<and> f_most_significant_bit False [0, 8, 0, 0, 0, 0, 0, 0, 0, 0, 0, 0 :: 8 word] = Ok 4
   \<and> BITS 0 \<lparr>r_container = [248, 255, 123, 8, 8, 0, 0, 0, 0, 0], r_data = 0, r_buffer = 131614, r_buffered_bits = 46\<rparr>
       = Ok (8, \<lparr>r_container = [248, 255, 123, 8, 8, 0, 0, 0, 0, 0], r_data = 0, r_buffer = 2056, r_buffered_bits = 40\<rparr>)
   \<and> BITS 0 \<lparr>r_container = [248, 255, 123, 8, 8, 0, 0, 0, 0, 0], r_data = 0, r_buffer = 2056, r_buffered_bits = 40\<rparr>
       = Ok (4, \<lparr>r_container = [248, 255, 123, 8, 8, 0, 0, 0, 0, 0], r_data = 0, r_buffer = 128, r_buffered_bits = 36\<rparr>)
   \<and> POP False False 4 2 \<lparr>r_container = [248, 255, 123, 8, 8, 0, 0, 0, 0, 0], r_data = 0, r_buffer = 128, r_buffered_bits = 36\<rparr>
       = Ok ([0, 8 :: 8 word], \<lparr>r_container = [248, 255, 123, 8, 8, 0, 0, 0, 0, 0], r_data = 0, r_buffer = 0, r_buffered_bits = 28\<rparr>)
   \<and> f_compress_blocks False False Unsigned 12 [255, 7 :: 8 word] (replicate 12 0) 0 0 0
         \<lparr>w_flushed = [], w_buffer = 0x3FFF8, w_buffered_bits = 18\<rparr>
       = Ok \<lparr>w_flushed = [34502082552], w_buffer = 0, w_buffered_bits = 12\<rparr>
   \<and> f_prolix_unsigned_blocks False False 8 12 2 0 0 0 \<lparr>r_container = [248, 255, 123, 8, 8, 0, 0, 0, 0, 0], r_data = 0, r_buffer = 131614, r_buffered_bits = 46\<rparr>
       = Ok [255, 7 :: 8 word]"
proof -
  let ?data = "[255, 7 :: 8 word]"
  let ?buffer1 = "[0, 8, 0, 0, 0, 0, 0, 0, 0, 0, 0, 0 :: 8 word]"
  let ?w = "\<lparr>w_flushed = [], w_buffer = 0x3FFF8, w_buffered_bits = 18\<rparr>"
  let ?q0 = "\<lparr>r_container = [248, 255, 123, 8, 8, 0, 0, 0, 0, 0], r_data = 0, r_buffer = 131614, r_buffered_bits = 46\<rparr>"
  let ?q1 = "\<lparr>r_container = [248, 255, 123, 8, 8, 0, 0, 0, 0, 0], r_data = 0, r_buffer = 2056, r_buffered_bits = 40\<rparr>"
  let ?q2 = "\<lparr>r_container = [248, 255, 123, 8, 8, 0, 0, 0, 0, 0], r_data = 0, r_buffer = 128, r_buffered_bits = 36\<rparr>"
  let ?q3 = "\<lparr>r_container = [248, 255, 123, 8, 8, 0, 0, 0, 0, 0], r_data = 0, r_buffer = 0, r_buffered_bits = 28\<rparr>"
  have pos: "0 < length ?data" and blk: "(12 :: nat) \<noteq> 0"
    by simp_all
  have data_block: "?data = take 12 (drop 0 ?data)"
    by simp
  have enc_masked: "f_most_significant_bit False ?data = Ok LENGTH(8)"
    by code_simp
  have buffer1: "?buffer1 = map (\<lambda>val. val + 1) ?data @ drop (length ?data) (replicate 12 0)"
    by code_simp
  have enc_width: "f_most_significant_bit False ?buffer1 = Ok 4"
    by code_simp
  have hdr: "BITS 0 ?q0 = Ok (8, ?q1)"
    by code_simp
  have hdrP: "unat (8 :: byte) = 8"
    by simp
  have mhdr: "BITS 0 ?q1 = Ok (4, ?q2)"
    by code_simp
  have payload: "POP False False (unat (4 :: byte)) (min (length ?data) (0 + 12) - 0) ?q2
      = Ok ([0, 8 :: 8 word], ?q3)"
    by code_simp
  have pop: "POP False False 4 2 ?q2 = Ok ([0, 8 :: 8 word], ?q3)"
    by code_simp
  have noovf: "False \<and> 32 \<le> LENGTH(8)
      \<longrightarrow> (\<forall>val \<in> set [0, 8 :: 8 word]. sint val \<noteq> - (2 ^ (LENGTH(8) - 1)))"
    by simp
  have rest: "f_prolix_unsigned_blocks False False 8 12 (length ?data) (0 + 12) 8 4 ?q3
      = Ok ([] :: 8 word list)"
    by code_simp
  have run: "obind (PUSH_BITS 0 LENGTH(8) ?w) (\<lambda>w1.
             obind (PUSH_BITS 0 4 w1) (\<lambda>w2.
             obind (push_back_dyn False False 4 ?buffer1 w2) (\<lambda>w3.
               f_compress_blocks False False Unsigned 12 ?data ?buffer1 (0 + 12)
                 LENGTH(8) 4 w3)))
      = Ok \<lparr>w_flushed = [34502082552], w_buffer = 0, w_buffered_bits = 12\<rparr>"
    by code_simp
  note block = masked_block_unsigned [where prevbits = 0 and prevmasked_bits = 0 and w = ?w,
      OF pos blk data_block enc_masked buffer1 enc_width hdr hdrP mhdr payload noovf rest]
  from block have "f_compress_blocks False False Unsigned 12 ?data (replicate 12 0) 0 0 0 ?w
      = obind (PUSH_BITS 0 LENGTH(8) ?w) (\<lambda>w1.
        obind (PUSH_BITS 0 4 w1) (\<lambda>w2.
        obind (push_back_dyn False False 4 ?buffer1 w2) (\<lambda>w3.
          f_compress_blocks False False Unsigned 12 ?data ?buffer1 (0 + 12)
            LENGTH(8) 4 w3)))"
    by (rule conjunct1)
  from this run have enc: "f_compress_blocks False False Unsigned 12 ?data (replicate 12 0) 0 0 0 ?w
      = Ok \<lparr>w_flushed = [34502082552], w_buffer = 0, w_buffered_bits = 12\<rparr>"
    by (rule trans)
  from block have "f_prolix_unsigned_blocks False False 8 12 (length ?data) 0 0 0 ?q0
      = Ok (map (\<lambda>val. val - 1) [0, 8 :: 8 word] @ [])"
    by (rule conjunct1 [OF conjunct2])
  moreover have "length ?data = 2" and "map (\<lambda>val. val - 1) [0, 8 :: 8 word] @ [] = [255, 7]"
    by simp_all
  ultimately have dec: "f_prolix_unsigned_blocks False False 8 12 2 0 0 0 ?q0 = Ok [255, 7 :: 8 word]"
    by (simp only:)
  from enc_masked enc_width hdr mhdr pop enc dec show ?thesis
    by (intro conjI)
qed

section \<open>The width of a block in the mode Signed\<close>

text \<open>
  The loop that counts the bits of \<^verbatim>\<open>setbits\<close> returns at most \<open>n\<close> exactly when
  \<^verbatim>\<open>setbits\<close> is below \<open>2 ^ n\<close>, and the bitwise or of two numbers is below \<open>2 ^ n\<close> exactly
  when both are.
\<close>

lemma count_bits_ge: "r \<le> count_bits s r"
proof (induction s r rule: count_bits.induct)
  case (1 s r)
  show ?case
  proof (cases "s = 0")
    case True
    then show ?thesis by (subst count_bits.simps) simp
  next
    case False
    with "1.IH" have "r + 1 \<le> count_bits (drop_bit 1 s) (r + 1)" by simp
    with False show ?thesis by (subst count_bits.simps) simp
  qed
qed

lemma count_bits_le_iff: "count_bits s r \<le> r + n \<longleftrightarrow> unat s < 2 ^ n"
proof (induction s r arbitrary: n rule: count_bits.induct)
  case (1 s r)
  show ?case
  proof (cases "s = 0")
    case True
    then show ?thesis by (subst count_bits.simps) simp
  next
    case False
    have eq: "count_bits s r = count_bits (drop_bit 1 s) (r + 1)"
      using False by (subst count_bits.simps) simp
    have half: "unat (drop_bit 1 s) = unat s div 2"
      by (simp add: drop_bit_eq_div unat_div)
    show ?thesis
    proof (cases n)
      case 0
      have "r + 1 \<le> count_bits (drop_bit 1 s) (r + 1)"
        by (rule count_bits_ge)
      moreover from False have "0 < unat s"
        by (simp add: unat_gt_0)
      ultimately show ?thesis
        using 0 eq by simp
    next
      case (Suc m)
      have "count_bits (drop_bit 1 s) (r + 1) \<le> (r + 1) + m \<longleftrightarrow> unat (drop_bit 1 s) < 2 ^ m"
        using "1.IH" [OF False] .
      moreover have "unat s div 2 < 2 ^ m \<longleftrightarrow> unat s < 2 ^ Suc m"
        by auto
      ultimately show ?thesis
        using Suc eq half by simp
    qed
  qed
qed

lemma nat_or_less_iff: "(a OR b :: nat) < 2 ^ n \<longleftrightarrow> a < 2 ^ n \<and> b < 2 ^ n"
proof
  assume "a OR b < 2 ^ n"
  then have t: "take_bit n (a OR b) = a OR b"
    by (simp only: take_bit_nat_eq_self_iff)
  have upper: "k < n" if "bit (a OR b) k" for k
  proof -
    from that t have "bit (take_bit n (a OR b)) k" by (simp only:)
    then show ?thesis by (simp only: bit_take_bit_iff)
  qed
  have "take_bit n a = a"
    by (rule bit_eqI) (auto simp: bit_take_bit_iff bit_or_iff intro: upper)
  moreover have "take_bit n b = b"
    by (rule bit_eqI) (auto simp: bit_take_bit_iff bit_or_iff intro: upper)
  ultimately show "a < 2 ^ n \<and> b < 2 ^ n"
    by (simp only: take_bit_nat_eq_self_iff)
next
  assume "a < 2 ^ n \<and> b < 2 ^ n"
  then have "take_bit n a = a" and "take_bit n b = b"
    by (simp_all only: take_bit_nat_eq_self_iff)
  then have "take_bit n (a OR b) = a OR b"
    by (simp only: take_bit_or)
  then show "a OR b < 2 ^ n"
    by (simp only: take_bit_nat_eq_self_iff)
qed

lemma unat_or_less_iff:
  "unat (a OR b :: u64) < 2 ^ n \<longleftrightarrow> unat a < 2 ^ n \<and> unat b < 2 ^ n"
  by (simp add: unsigned_or_eq nat_or_less_iff)

lemma int_mod_shift_down: "m \<le> z \<Longrightarrow> z < 2 * m \<Longrightarrow> (z :: int) mod m = z - m"
proof -
  assume a: "m \<le> z" "z < 2 * m"
  have "z mod m = (z - m + m) mod m" by simp
  also have "\<dots> = (z - m) mod m" by (simp only: mod_add_self2)
  also have "\<dots> = z - m" using a by (intro mod_pos_pos_trivial) simp_all
  finally show ?thesis .
qed

lemma signed_take_bit_wrap:
  "0 < W \<Longrightarrow> 2 ^ (W - 1) \<le> y \<Longrightarrow> y < 2 ^ W \<Longrightarrow> signed_take_bit (W - 1) (y :: int) = y - 2 ^ W"
proof -
  assume W: "0 < W" and ge: "2 ^ (W - 1) \<le> y" and lt: "y < 2 ^ W"
  from W have pW: "(2 :: int) ^ W = 2 * 2 ^ (W - 1)" and S: "Suc (W - 1) = W"
    by (cases W; simp)+
  have "signed_take_bit (W - 1) y = take_bit W (y + 2 ^ (W - 1)) - 2 ^ (W - 1)"
    using S by (simp add: signed_take_bit_eq_take_bit_shift)
  also have "take_bit W (y + 2 ^ (W - 1)) = (y + 2 ^ (W - 1)) mod 2 ^ W"
    by (simp add: take_bit_eq_mod)
  also have "\<dots> = y + 2 ^ (W - 1) - 2 ^ W"
    using ge lt pW by (intro int_mod_shift_down) simp_all
  finally show ?thesis by simp
qed

lemma unat_word_of_int_negative:
  "- (2 ^ 64) \<le> k \<Longrightarrow> k < 0 \<Longrightarrow> int (unat (word_of_int k :: u64)) = k + 2 ^ 64"
proof -
  assume a: "- (2 ^ 64) \<le> k" "k < 0"
  have "int (unat (word_of_int k :: u64)) = uint (word_of_int k :: u64)"
    by simp
  also have "\<dots> = k mod 2 ^ 64"
    by (simp add: uint_word_of_int)
  also have "\<dots> = (k + 2 ^ 64) mod 2 ^ 64"
    by simp
  also have "\<dots> = k + 2 ^ 64"
    using a by (intro mod_pos_pos_trivial) simp_all
  finally show ?thesis .
qed

lemma unat_word_of_int_small:
  "0 \<le> k \<Longrightarrow> k < 2 ^ 64 \<Longrightarrow> int (unat (word_of_int k :: u64)) = k"
proof -
  assume a: "0 \<le> k" "k < 2 ^ 64"
  have "int (unat (word_of_int k :: u64)) = uint (word_of_int k :: u64)"
    by simp
  also have "\<dots> = k mod 2 ^ 64"
    by (simp add: uint_word_of_int)
  also have "\<dots> = k"
    using a by (intro mod_pos_pos_trivial) simp_all
  finally show ?thesis .
qed

text \<open>What a value adds to \<open>setbits\<close>, read as a bound on the number of its bits.\<close>

lemma setbits_of_signed:
  fixes val :: "'a::len word"
  assumes len: "LENGTH('a) \<le> 64"
    and nomin: "sint val \<noteq> - (2 ^ (max 32 LENGTH('a) - 1))"
  shows "\<exists>b. setbits_of True val = Ok b
           \<and> (\<forall>n < LENGTH('a). unat b < 2 ^ n \<longleftrightarrow>
                 (if sint val = - 1 then 1 \<le> n else 2 * \<bar>sint val\<bar> < 2 ^ n))"
proof (cases "sint val = - 1")
  case True
  then have "setbits_of True val = Ok 1"
    by (simp add: setbits_of_def)
  moreover have "unat (1 :: u64) < 2 ^ n \<longleftrightarrow> 1 \<le> n" for n :: nat
  proof (cases n)
    case 0
    then show ?thesis by simp
  next
    case (Suc m)
    have "(1 :: nat) < 2 ^ Suc m"
      by (rule one_less_power) simp_all
    with Suc show ?thesis by simp
  qed
  ultimately show ?thesis
    using True by simp
next
  case False
  define W where "W = max 32 LENGTH('a)"
  define x where "x = sint val"
  define y where "y = 2 * \<bar>x\<bar>"
  have W: "32 \<le> W" "LENGTH('a) \<le> W" "W \<le> 64"
    using len by (simp_all add: W_def)
  have "- (2 ^ (LENGTH('a) - 1)) \<le> x"
    unfolding x_def by (rule sint_ge)
  moreover have "x < 2 ^ (LENGTH('a) - 1)"
    unfolding x_def by (rule sint_lt)
  moreover have "(2 :: int) ^ (LENGTH('a) - 1) \<le> 2 ^ (W - 1)"
    using W by (intro power_increasing) simp_all
  ultimately have "- (2 ^ (W - 1)) \<le> x" and "x < 2 ^ (W - 1)"
    by linarith+
  moreover from nomin have "x \<noteq> - (2 ^ (W - 1))"
    by (simp add: x_def W_def)
  ultimately have absx: "\<bar>x\<bar> < 2 ^ (W - 1)"
    by linarith
  have pW: "(2 :: int) ^ W = 2 * 2 ^ (W - 1)"
    using W by (cases W) simp_all
  have y0: "0 \<le> y" and yW: "y < 2 ^ W"
    using absx pW by (simp_all add: y_def)
  have p64: "(2 :: int) ^ W \<le> 2 ^ 64"
    using W by (intro power_increasing) simp_all
  have res: "setbits_of True val = Ok (word_of_int (signed_take_bit (W - 1) y))"
    using False nomin by (simp add: setbits_of_def W_def x_def y_def Let_def)
  have bound: "unat (word_of_int (signed_take_bit (W - 1) y) :: u64) < 2 ^ n \<longleftrightarrow> y < 2 ^ n"
    if n: "n < LENGTH('a)" for n
  proof (cases "y < 2 ^ (W - 1)")
    case True
    with y0 have "signed_take_bit (W - 1) y = y"
      by (simp add: signed_take_bit_int_eq_self_iff)
    moreover from yW p64 have "y < 2 ^ 64"
      by (rule less_le_trans)
    with y0 have "int (unat (word_of_int y :: u64)) = y"
      by (intro unat_word_of_int_small)
    ultimately have "int (unat (word_of_int (signed_take_bit (W - 1) y) :: u64)) = y"
      by simp
    then have "int (unat (word_of_int (signed_take_bit (W - 1) y) :: u64)) < 2 ^ n \<longleftrightarrow> y < 2 ^ n"
      by simp
    then show ?thesis
      by (metis of_nat_less_iff of_nat_numeral of_nat_power)
  next
    case False
    then have ge: "2 ^ (W - 1) \<le> y"
      by simp
    have stb: "signed_take_bit (W - 1) y = y - 2 ^ W"
      using W ge yW by (intro signed_take_bit_wrap) simp_all
    have "int (unat (word_of_int (y - 2 ^ W) :: u64)) = y - 2 ^ W + 2 ^ 64"
      using y0 yW p64 by (intro unat_word_of_int_negative) simp_all
    moreover have "(2 :: int) ^ n \<le> 2 ^ (W - 1)"
      using n W by (intro power_increasing) simp_all
    moreover have "(2 :: int) ^ (W - 1) \<le> 2 ^ 63"
      using W by (intro power_increasing) simp_all
    moreover have "(2 :: int) ^ 64 = 2 * 2 ^ 63"
      by simp
    ultimately have "int (unat (word_of_int (y - 2 ^ W) :: u64)) \<ge> 2 ^ n"
      using ge pW by linarith
    then have "\<not> unat (word_of_int (signed_take_bit (W - 1) y) :: u64) < 2 ^ n"
      using stb by (metis of_nat_less_iff of_nat_numeral of_nat_power not_less)
    moreover have "\<not> y < 2 ^ n"
      using ge \<open>(2 :: int) ^ n \<le> 2 ^ (W - 1)\<close> by linarith
    ultimately show ?thesis
      by simp
  qed
  show ?thesis
    using res bound False by (simp add: x_def y_def)
qed

lemma setbits_fold_bound:
  assumes "\<forall>val \<in> set vals. \<exists>b. setbits_of sg val = Ok b \<and> (\<forall>n < L. unat b < 2 ^ n \<longleftrightarrow> Q n val)"
  shows "\<exists>t. setbits_fold sg vals s = Ok t
           \<and> (\<forall>n < L. unat t < 2 ^ n \<longleftrightarrow> unat s < 2 ^ n \<and> (\<forall>val \<in> set vals. Q n val))"
  using assms
proof (induction vals arbitrary: s)
  case Nil
  then show ?case by simp
next
  case (Cons val vals)
  from Cons.prems obtain b where b: "setbits_of sg val = Ok b"
    and bQ: "\<forall>n < L. unat b < 2 ^ n \<longleftrightarrow> Q n val"
    by auto
  from Cons.prems have "\<forall>val \<in> set vals. \<exists>b. setbits_of sg val = Ok b \<and> (\<forall>n < L. unat b < 2 ^ n \<longleftrightarrow> Q n val)"
    by simp
  from Cons.IH [OF this, of "s OR b"] obtain t where t: "setbits_fold sg vals (s OR b) = Ok t"
    and tQ: "\<forall>n < L. unat t < 2 ^ n \<longleftrightarrow> unat (s OR b) < 2 ^ n \<and> (\<forall>val \<in> set vals. Q n val)"
    by blast
  from b t have "setbits_fold sg (val # vals) s = Ok t"
    by simp
  moreover from tQ bQ have "\<forall>n < L. unat t < 2 ^ n \<longleftrightarrow> unat s < 2 ^ n \<and> (\<forall>val \<in> set (val # vals). Q n val)"
    by (auto simp: unat_or_less_iff)
  ultimately show ?case
    by blast
qed

lemma f_most_significant_bit_signed:
  fixes vals :: "'a::len word list"
  assumes len: "LENGTH('a) \<le> 64"
    and nomin: "\<forall>val \<in> set vals. sint val \<noteq> - (2 ^ (max 32 LENGTH('a) - 1))"
  shows "\<exists>w. f_most_significant_bit True vals = Ok w \<and> w \<le> LENGTH('a)
           \<and> (w = 0 \<longleftrightarrow> (\<forall>val \<in> set vals. val = 0))
           \<and> (\<forall>val \<in> set vals. - (2 ^ (w - 1)) \<le> sint val \<and> sint val < 2 ^ (w - 1))
           \<and> (w < LENGTH('a) \<longrightarrow>
                 (\<forall>val \<in> set vals. if sint val = - 1 then 1 \<le> w else 2 * \<bar>sint val\<bar> < 2 ^ w))
           \<and> (2 \<le> w \<longrightarrow> (\<exists>val \<in> set vals. sint val \<noteq> - 1 \<and> 2 ^ (w - 2) \<le> \<bar>sint val\<bar>))"
proof -
  let ?L = "LENGTH('a)"
  let ?Q = "\<lambda>n (val :: 'a word). if sint val = - 1 then 1 \<le> n else 2 * \<bar>sint val\<bar> < 2 ^ n"
  have "\<forall>val \<in> set vals. \<exists>b. setbits_of True val = Ok b \<and> (\<forall>n < ?L. unat b < 2 ^ n \<longleftrightarrow> ?Q n val)"
    using setbits_of_signed [OF len] nomin by blast
  from setbits_fold_bound [where Q = ?Q, OF this, of 0]
  obtain t where t: "setbits_fold True vals 0 = Ok t"
    and tQ: "\<forall>n < ?L. unat t < 2 ^ n \<longleftrightarrow> (\<forall>val \<in> set vals. ?Q n val)"
    by auto
  define r where "r = count_bits t 0"
  define w where "w = min r ?L"
  have res: "f_most_significant_bit True vals = Ok w"
    using t by (simp add: f_most_significant_bit_def w_def r_def)
  have wL: "w \<le> ?L"
    by (simp add: w_def)
  have key: "w \<le> n \<longleftrightarrow> (\<forall>val \<in> set vals. ?Q n val)" if "n < ?L" for n
  proof -
    have "w \<le> n \<longleftrightarrow> r \<le> n"
      using that by (auto simp: w_def)
    also have "\<dots> \<longleftrightarrow> unat t < 2 ^ n"
      using count_bits_le_iff [of t 0 n] by (simp add: r_def)
    also have "\<dots> \<longleftrightarrow> (\<forall>val \<in> set vals. ?Q n val)"
      using tQ that by blast
    finally show ?thesis .
  qed
  have zero: "w = 0 \<longleftrightarrow> (\<forall>val \<in> set vals. val = 0)"
  proof -
    have "w = 0 \<longleftrightarrow> (\<forall>val \<in> set vals. ?Q 0 val)"
      using key [of 0] by simp
    also have "\<dots> \<longleftrightarrow> (\<forall>val \<in> set vals. sint val = 0)"
      by (intro ball_cong refl) auto
    also have "\<dots> \<longleftrightarrow> (\<forall>val \<in> set vals. val = 0)"
      by (simp add: signed_eq_0_iff)
    finally show ?thesis .
  qed
  have magn: "\<forall>val \<in> set vals. ?Q w val" if "w < ?L"
    using key [OF that] by simp
  have fits: "- (2 ^ (w - 1)) \<le> sint val \<and> sint val < 2 ^ (w - 1)" if val: "val \<in> set vals" for val
  proof (cases "w < ?L")
    case False
    with wL have "w = ?L" by simp
    then show ?thesis
      using sint_ge [of val] sint_lt [of val] by simp
  next
    case True
    from magn [OF True] val have Q: "?Q w val" by blast
    show ?thesis
    proof (cases "sint val = - 1")
      case True
      have "(0 :: int) < 2 ^ (w - 1)" by simp
      with True show ?thesis by linarith
    next
      case False
      with Q have lt: "2 * \<bar>sint val\<bar> < 2 ^ w" by simp
      show ?thesis
      proof (cases w)
        case 0
        with lt have "2 * \<bar>sint val\<bar> < 1" by simp
        then have "sint val = 0" by linarith
        with 0 show ?thesis by simp
      next
        case (Suc m)
        with lt have "\<bar>sint val\<bar> < 2 ^ m" by simp
        with Suc show ?thesis by simp linarith
      qed
    qed
  qed
  have tight: "\<exists>val \<in> set vals. sint val \<noteq> - 1 \<and> 2 ^ (w - 2) \<le> \<bar>sint val\<bar>" if w2: "2 \<le> w"
  proof -
    from w2 wL have n: "w - 1 < ?L" by simp
    from w2 have "\<not> w \<le> w - 1" by simp
    with key [OF n] obtain val where val: "val \<in> set vals" and nQ: "\<not> ?Q (w - 1) val"
      by blast
    from nQ w2 have ne: "sint val \<noteq> - 1"
      by (auto split: if_splits)
    with nQ have "2 ^ (w - 1) \<le> 2 * \<bar>sint val\<bar>"
      by simp
    moreover from w2 obtain m where m: "w = Suc (Suc m)"
      by (metis Suc_le_D numeral_2_eq_2 Suc_le_mono)
    ultimately have "2 ^ (w - 2) \<le> \<bar>sint val\<bar>"
      by simp
    with val ne show ?thesis by blast
  qed
  from res wL zero fits magn tight show ?thesis
    by blast
qed

text \<open>The same for an unsigned element type, whose values are or-ed as they are.\<close>

lemma setbits_of_unsigned:
  fixes val :: "'a::len word"
  assumes "LENGTH('a) \<le> 64"
  shows "\<exists>b. setbits_of False val = Ok b \<and> (\<forall>n < LENGTH('a). unat b < 2 ^ n \<longleftrightarrow> unat val < 2 ^ n)"
proof -
  have "unat val < 2 ^ LENGTH('a)"
    by (rule unsigned_less)
  also have "(2 :: nat) ^ LENGTH('a) \<le> 2 ^ 64"
    using assms by (rule power_increasing) simp
  finally have "unat val < 2 ^ LENGTH(64)"
    by simp
  then have "unat (ucast val :: u64) = unat val"
    by (simp add: unsigned_ucast_eq take_bit_nat_eq_self)
  then show ?thesis
    by (simp add: setbits_of_def)
qed

lemma f_most_significant_bit_unsigned:
  fixes vals :: "'a::len word list"
  assumes len: "LENGTH('a) \<le> 64"
  shows "\<exists>w. f_most_significant_bit False vals = Ok w \<and> w \<le> LENGTH('a)
           \<and> (w = 0 \<longleftrightarrow> (\<forall>val \<in> set vals. val = 0))
           \<and> (\<forall>val \<in> set vals. unat val < 2 ^ w)
           \<and> (1 \<le> w \<longrightarrow> (\<exists>val \<in> set vals. 2 ^ (w - 1) \<le> unat val))"
proof -
  let ?L = "LENGTH('a)"
  let ?Q = "\<lambda>n (val :: 'a word). unat val < 2 ^ n"
  have "\<forall>val \<in> set vals. \<exists>b. setbits_of False val = Ok b \<and> (\<forall>n < ?L. unat b < 2 ^ n \<longleftrightarrow> ?Q n val)"
    using setbits_of_unsigned [OF len] by blast
  from setbits_fold_bound [where Q = ?Q, OF this, of 0]
  obtain t where t: "setbits_fold False vals 0 = Ok t"
    and tQ: "\<forall>n < ?L. unat t < 2 ^ n \<longleftrightarrow> (\<forall>val \<in> set vals. ?Q n val)"
    by auto
  define r where "r = count_bits t 0"
  define w where "w = min r ?L"
  have res: "f_most_significant_bit False vals = Ok w"
    using t by (simp add: f_most_significant_bit_def w_def r_def)
  have wL: "w \<le> ?L"
    by (simp add: w_def)
  have key: "w \<le> n \<longleftrightarrow> (\<forall>val \<in> set vals. ?Q n val)" if "n < ?L" for n
  proof -
    have "w \<le> n \<longleftrightarrow> r \<le> n"
      using that by (auto simp: w_def)
    also have "\<dots> \<longleftrightarrow> unat t < 2 ^ n"
      using count_bits_le_iff [of t 0 n] by (simp add: r_def)
    also have "\<dots> \<longleftrightarrow> (\<forall>val \<in> set vals. ?Q n val)"
      using tQ that by blast
    finally show ?thesis .
  qed
  have zero: "w = 0 \<longleftrightarrow> (\<forall>val \<in> set vals. val = 0)"
  proof -
    have "w = 0 \<longleftrightarrow> (\<forall>val \<in> set vals. unat val < 2 ^ 0)"
      using key [of 0] by simp
    also have "\<dots> \<longleftrightarrow> (\<forall>val \<in> set vals. val = 0)"
      by (simp add: unat_eq_0)
    finally show ?thesis .
  qed
  have fits: "unat val < 2 ^ w" if val: "val \<in> set vals" for val
  proof (cases "w < ?L")
    case False
    with wL have "w = ?L" by simp
    then show ?thesis
      using unsigned_less [of val] by simp
  next
    case True
    from key [OF True] val show ?thesis by simp
  qed
  have tight: "\<exists>val \<in> set vals. 2 ^ (w - 1) \<le> unat val" if w1: "1 \<le> w"
  proof -
    from w1 wL have n: "w - 1 < ?L" by simp
    from w1 have "\<not> w \<le> w - 1" by simp
    with key [OF n] obtain val where "val \<in> set vals" and "\<not> unat val < 2 ^ (w - 1)"
      by blast
    then show ?thesis
      by (auto simp: not_less)
  qed
  from res wL zero fits tight show ?thesis
    by blast
qed

lemma f_compress_blocks_Signed:
  fixes data :: "'a::len word list"
  assumes "from < length data" and "block \<noteq> 0"
    and "f_most_significant_bit sg (take block (drop from data)) = Ok w"
  shows "f_compress_blocks asserts sg Signed block data buffer from prevbits prevmasked_bits q
    = obind (PUSH_BITS prevbits w q) (\<lambda>q1.
      obind (push_back_dyn asserts sg w (take block (drop from data)) q1) (\<lambda>q2.
        f_compress_blocks asserts sg Signed block data buffer (from + block) w prevmasked_bits q2))"
  using assms by (subst f_compress_blocks.simps) (simp add: Let_def)

text \<open>
  C6, as the specification states it, fails on a block whose value of largest magnitude
  is \<open>- (2 ^ k)\<close> with \<open>1 \<le> k\<close>.  The block that holds the single value \<open>- 2\<close> of the type
  \<^verbatim>\<open>int8_t\<close> fits in two's complement of width 2, the width that the formula
  \<open>\<lceil>log\<^sub>2 (max \<bar>v\<bar> \<bar>v + 1\<bar>)\<rceil> + 1\<close> gives, and \<^verbatim>\<open>f_most_significant_bit\<close> returns 3.
\<close>

theorem f_most_significant_bit_signed_counterexample:
  "f_most_significant_bit True [- 2 :: 8 word] = Ok 3
   \<and> - (2 ^ (2 - 1)) \<le> sint (- 2 :: 8 word) \<and> sint (- 2 :: 8 word) < 2 ^ (2 - 1)"
  by code_simp

text \<open>
  C6, amended.  In the mode Signed the loop of \<^verbatim>\<open>f_compress\<close> gives the block at the
  position \<open>from\<close> the width \<open>w\<close> that \<^verbatim>\<open>f_most_significant_bit\<close> returns for it: it writes
  the header for \<open>w\<close> and the values of the block with \<open>w\<close> bits each.  The mode accepts
  data of a signed and of an unsigned element type \<open>T\<close> (the flag \<open>sg\<close>), of at most 64
  bits.  A block of a signed \<open>T\<close> is supposed to hold no most negative value of the type in
  which \<^verbatim>\<open>std::abs\<close> is computed (\<^verbatim>\<open>int\<close> for the types narrower than \<^verbatim>\<open>int\<close>, \<open>T\<close>
  otherwise), on which \<^verbatim>\<open>std::abs\<close> is undefined.  Then \<open>w\<close> is at most the number of bits
  of \<open>T\<close>, and \<open>w\<close> is 0 exactly when the block is all zeros.

  \<^item> For a signed \<open>T\<close> every value fits in two's complement of width \<open>w\<close>.  The width is
    the least one that gives the value \<open>- 1\<close> one bit and every other value \<open>v\<close> one bit
    more than its magnitude needs, \<open>2 * \<bar>v\<bar> < 2 ^ w\<close>, capped at the number of bits of \<open>T\<close>:
    when \<open>2 \<le> w\<close> some value other than \<open>- 1\<close> has \<open>2 ^ (w - 2) \<le> \<bar>v\<bar>\<close>.  So it is not always
    the minimum: a block whose value of largest magnitude is \<open>- (2 ^ k)\<close> gets \<open>k + 2\<close>
    bits.
  \<^item> For an unsigned \<open>T\<close> there is no sign bit: \<open>w\<close> is the least width with every value
    below \<open>2 ^ w\<close>, and when \<open>1 \<le> w\<close> some value is at least \<open>2 ^ (w - 1)\<close>, so that it does
    not fit in two's complement of width \<open>w\<close>.
\<close>

theorem f_most_significant_bit_Signed_mode:
  fixes data :: "'a::len word list"
  assumes len: "LENGTH('a) \<le> 64"
    and pos: "from < length data" and blk: "block \<noteq> 0"
    and data_block: "data_block = take block (drop from data)"
    and nomin: "sg \<longrightarrow> (\<forall>val \<in> set data_block. sint val \<noteq> - (2 ^ (max 32 LENGTH('a) - 1)))"
  shows "\<exists>w. f_most_significant_bit sg data_block = Ok w
           \<and> f_compress_blocks asserts sg Signed block data buffer from prevbits prevmasked_bits q
               = obind (PUSH_BITS prevbits w q) (\<lambda>q1.
                 obind (push_back_dyn asserts sg w data_block q1) (\<lambda>q2.
                   f_compress_blocks asserts sg Signed block data buffer (from + block)
                     w prevmasked_bits q2))
           \<and> w \<le> LENGTH('a)
           \<and> (w = 0 \<longleftrightarrow> (\<forall>val \<in> set data_block. val = 0))
           \<and> (sg \<longrightarrow>
                 (\<forall>val \<in> set data_block. - (2 ^ (w - 1)) \<le> sint val \<and> sint val < 2 ^ (w - 1))
               \<and> (w < LENGTH('a) \<longrightarrow>
                    (\<forall>val \<in> set data_block.
                       if sint val = - 1 then 1 \<le> w else 2 * \<bar>sint val\<bar> < 2 ^ w))
               \<and> (2 \<le> w \<longrightarrow>
                    (\<exists>val \<in> set data_block. sint val \<noteq> - 1 \<and> 2 ^ (w - 2) \<le> \<bar>sint val\<bar>)))
           \<and> (\<not> sg \<longrightarrow>
                 (\<forall>val \<in> set data_block. unat val < 2 ^ w)
               \<and> (1 \<le> w \<longrightarrow> (\<exists>val \<in> set data_block. 2 ^ (w - 1) \<le> unat val)))"
proof (cases sg)
  case True
  with nomin have "\<forall>val \<in> set data_block. sint val \<noteq> - (2 ^ (max 32 LENGTH('a) - 1))"
    by simp
  from f_most_significant_bit_signed [OF len this]
  obtain w where w: "f_most_significant_bit True data_block = Ok w"
    and props: "w \<le> LENGTH('a)" "w = 0 \<longleftrightarrow> (\<forall>val \<in> set data_block. val = 0)"
      "\<forall>val \<in> set data_block. - (2 ^ (w - 1)) \<le> sint val \<and> sint val < 2 ^ (w - 1)"
      "w < LENGTH('a) \<longrightarrow>
         (\<forall>val \<in> set data_block. if sint val = - 1 then 1 \<le> w else 2 * \<bar>sint val\<bar> < 2 ^ w)"
      "2 \<le> w \<longrightarrow> (\<exists>val \<in> set data_block. sint val \<noteq> - 1 \<and> 2 ^ (w - 2) \<le> \<bar>sint val\<bar>)"
    by blast
  from w True have w': "f_most_significant_bit sg (take block (drop from data)) = Ok w"
    by (simp add: data_block)
  note enc = f_compress_blocks_Signed [OF pos blk w', of asserts buffer prevbits prevmasked_bits q]
  have "f_most_significant_bit sg data_block = Ok w
      \<and> f_compress_blocks asserts sg Signed block data buffer from prevbits prevmasked_bits q
          = obind (PUSH_BITS prevbits w q) (\<lambda>q1.
            obind (push_back_dyn asserts sg w data_block q1) (\<lambda>q2.
              f_compress_blocks asserts sg Signed block data buffer (from + block)
                w prevmasked_bits q2))"
    using w True enc by (simp add: data_block)
  with True props show ?thesis
    by (intro exI [of _ w]) simp
next
  case False
  from f_most_significant_bit_unsigned [OF len, of data_block]
  obtain w where w: "f_most_significant_bit False data_block = Ok w"
    and props: "w \<le> LENGTH('a)" "w = 0 \<longleftrightarrow> (\<forall>val \<in> set data_block. val = 0)"
      "\<forall>val \<in> set data_block. unat val < 2 ^ w"
      "1 \<le> w \<longrightarrow> (\<exists>val \<in> set data_block. 2 ^ (w - 1) \<le> unat val)"
    by blast
  from w False have w': "f_most_significant_bit sg (take block (drop from data)) = Ok w"
    by (simp add: data_block)
  note enc = f_compress_blocks_Signed [OF pos blk w', of asserts buffer prevbits prevmasked_bits q]
  have "f_most_significant_bit sg data_block = Ok w
      \<and> f_compress_blocks asserts sg Signed block data buffer from prevbits prevmasked_bits q
          = obind (PUSH_BITS prevbits w q) (\<lambda>q1.
            obind (push_back_dyn asserts sg w data_block q1) (\<lambda>q2.
              f_compress_blocks asserts sg Signed block data buffer (from + block)
                w prevmasked_bits q2))"
    using w False enc by (simp add: data_block)
  with False props show ?thesis
    by (intro exI [of _ w]) simp
qed

theorem f_most_significant_bit_Signed_mode_witness:
  "LENGTH(8) \<le> 64
   \<and> f_most_significant_bit True [- 4, 3, 0 :: 8 word] = Ok 4
   \<and> - (2 ^ (4 - 1)) \<le> sint (- 4 :: 8 word) \<and> sint (- 4 :: 8 word) < 2 ^ (4 - 1)
   \<and> 2 * \<bar>sint (- 4 :: 8 word)\<bar> < 2 ^ 4
   \<and> f_most_significant_bit False [1 :: 8 word] = Ok 1
   \<and> unat (1 :: 8 word) < 2 ^ 1 \<and> 2 ^ (1 - 1) \<le> unat (1 :: 8 word)"
proof -
  let ?vals = "[- 4, 3, 0 :: 8 word]"
  let ?uvals = "[1 :: 8 word]"
  have len: "LENGTH(8) \<le> 64"
    by simp
  have blk: "(12 :: nat) \<noteq> 0"
    by simp
  have pos: "0 < length ?vals" and data_block: "?vals = take 12 (drop 0 ?vals)"
    by simp_all
  have nomin: "True \<longrightarrow> (\<forall>val \<in> set ?vals. sint val \<noteq> - (2 ^ (max 32 LENGTH(8) - 1)))"
    by simp
  have run: "f_most_significant_bit True ?vals = Ok 4"
    by code_simp
  from f_most_significant_bit_Signed_mode [OF len pos blk data_block nomin]
  obtain w where w: "f_most_significant_bit True ?vals = Ok w"
    and fits: "\<forall>val \<in> set ?vals. - (2 ^ (w - 1)) \<le> sint val \<and> sint val < 2 ^ (w - 1)"
    and magn: "w < LENGTH(8) \<longrightarrow>
      (\<forall>val \<in> set ?vals. if sint val = - 1 then 1 \<le> w else 2 * \<bar>sint val\<bar> < 2 ^ w)"
    by blast
  from w run have w4: "w = 4"
    by simp
  from fits magn have signed: "- (2 ^ (4 - 1)) \<le> sint (- 4 :: 8 word) \<and> sint (- 4 :: 8 word) < 2 ^ (4 - 1)
      \<and> 2 * \<bar>sint (- 4 :: 8 word)\<bar> < 2 ^ 4"
    unfolding w4 by simp
  have upos: "0 < length ?uvals" and udata_block: "?uvals = take 12 (drop 0 ?uvals)"
    by simp_all
  have unomin: "False \<longrightarrow> (\<forall>val \<in> set ?uvals. sint val \<noteq> - (2 ^ (max 32 LENGTH(8) - 1)))"
    by simp
  have urun: "f_most_significant_bit False ?uvals = Ok 1"
    by code_simp
  from f_most_significant_bit_Signed_mode [OF len upos blk udata_block unomin]
  obtain u where u: "f_most_significant_bit False ?uvals = Ok u"
    and ufits: "\<forall>val \<in> set ?uvals. unat val < 2 ^ u"
    and utight: "1 \<le> u \<longrightarrow> (\<exists>val \<in> set ?uvals. 2 ^ (u - 1) \<le> unat val)"
    by blast
  from u urun have u1: "u = 1"
    by simp
  from ufits utight have unsigned: "unat (1 :: 8 word) < 2 ^ 1 \<and> 2 ^ (1 - 1) \<le> unat (1 :: 8 word)"
    unfolding u1 by simp
  from len run signed urun unsigned show ?thesis
    by simp
qed

end
